theory Spec2Isabelle
  imports Main
begin

section \<open>Regular expressions as the driver uses them\<close>

text \<open>
  The driver validates a qualified name with one anchored pattern
  (\<^verbatim>\<open>regexp.MatchString\<close> on a pattern that starts with \<^verbatim>\<open>^\<close> and ends with
  \<^verbatim>\<open>$\<close>, so the whole text has to match). The pattern uses literals, character classes,
  bounded repetition and \<^verbatim>\<open>+\<close>. Patterns are syntax trees, matched by derivatives.
\<close>

datatype rexp =
    Zero
  | One
  | Atom "char \<Rightarrow> bool"
  | Alt rexp rexp
  | Seq rexp rexp
  | Star rexp

fun nullable :: "rexp \<Rightarrow> bool" where
  "nullable Zero = False"
| "nullable One = True"
| "nullable (Atom P) = False"
| "nullable (Alt r s) = (nullable r \<or> nullable s)"
| "nullable (Seq r s) = (nullable r \<and> nullable s)"
| "nullable (Star r) = True"

fun deriv :: "char \<Rightarrow> rexp \<Rightarrow> rexp" where
  "deriv c Zero = Zero"
| "deriv c One = Zero"
| "deriv c (Atom P) = (if P c then One else Zero)"
| "deriv c (Alt r s) = Alt (deriv c r) (deriv c s)"
| "deriv c (Seq r s) =
     (if nullable r then Alt (Seq (deriv c r) s) (deriv c s) else Seq (deriv c r) s)"
| "deriv c (Star r) = Seq (deriv c r) (Star r)"

fun rmatch :: "rexp \<Rightarrow> string \<Rightarrow> bool" where
  "rmatch r [] = nullable r"
| "rmatch r (c # cs) = rmatch (deriv c r) cs"

definition chr :: "char \<Rightarrow> rexp" where
  "chr c = Atom (\<lambda>x. x = c)"

fun lits :: "string \<Rightarrow> rexp" where
  "lits [] = One"
| "lits (c # cs) = Seq (chr c) (lits cs)"

fun rep :: "nat \<Rightarrow> rexp \<Rightarrow> rexp" where
  "rep 0 r = One"
| "rep (Suc n) r = Seq r (rep n r)"

definition Plus :: "rexp \<Rightarrow> rexp" where
  "Plus r = Seq r (Star r)"

text \<open>The language of a pattern, the reference the matcher is checked against.\<close>

inductive_set star :: "string set \<Rightarrow> string set" for L :: "string set" where
  star_nil: "[] \<in> star L"
| star_app: "u \<in> L \<Longrightarrow> v \<in> star L \<Longrightarrow> u @ v \<in> star L"

fun lang :: "rexp \<Rightarrow> string set" where
  "lang Zero = {}"
| "lang One = {[]}"
| "lang (Atom P) = {[c] | c. P c}"
| "lang (Alt r s) = lang r \<union> lang s"
| "lang (Seq r s) = {u @ v | u v. u \<in> lang r \<and> v \<in> lang s}"
| "lang (Star r) = star (lang r)"

text \<open>
  \<^verbatim>\<open>regexp.MatchString\<close> reports whether the text \<^emph>\<open>contains\<close> a match: a pattern without
  anchors may be preceded and followed by anything.
\<close>

definition anychar :: rexp where
  "anychar = Atom (\<lambda>c. True)"

definition unanchored :: "rexp \<Rightarrow> rexp" where
  "unanchored r = Seq (Star anychar) (Seq r (Star anychar))"

text \<open>The dot of a pattern compiled without flags matches every character but the newline.\<close>

definition dot :: rexp where
  "dot = Atom (\<lambda>c. c \<noteq> CHR 0x0A)"


section \<open>The control-plane driver: \<^verbatim>\<open>pkg/compute/storagedrivers/iscsi.go\<close>\<close>

text \<open>
  Strings are Go strings read as ASCII text, one \<^typ>\<open>char\<close> per byte, and \<^verbatim>\<open>len\<close> is
  \<^const>\<open>length\<close>. A Go \<^verbatim>\<open>error\<close> result is an option: \<^const>\<open>None\<close> is \<^verbatim>\<open>nil\<close>. The Go
  \<^verbatim>\<open>int\<close> of the LUN number is only compared and stored, never computed with, so it is an
  \<^typ>\<open>int\<close>.
\<close>

subsection \<open>Errors\<close>

text \<open>The values built by \<^verbatim>\<open>fmt.Errorf\<close> in the driver, one constructor per message.\<close>

datatype verror =
    IQNEmpty
  | IQNFormat
  | IQNTooLong
  | TargetEmpty
  | TargetInvalidIP
  | PortalEmpty
  | PortalFormat
  | PortalInvalidIP
  | PortalInvalidPort
  | PortalPortRange
  | PasswordRequired
  | UsernameRequired
  | UsernameTooLong
  | UsernameWhitespace
  | PasswordTooLong
  | ParsePortalFailed
  | InvalidPortInPortal
  | ConnectFailed string
  | MissingConfParams

text \<open>
  The \<^verbatim>\<open>httperrors\<close> conditions the driver returns. A wrapped cause is kept as a value; the
  duplicate condition names the conflicting tuple.
\<close>

datatype httperror =
    MissingParameterError string
  | InputParameterError string verror
  | DuplicateResourceError string string string int
  | BadRequestError string verror
  | GeneralError

subsection \<open>What the driver takes from outside\<close>

text \<open>
  The Go standard library is a parameter: \<open>ParseIP\<close> tells whether \<^verbatim>\<open>net.ParseIP\<close> returns
  an address, \<open>SplitHostPort\<close> and \<open>Atoi\<close> return \<^const>\<open>None\<close> where the library returns an
  error, and \<open>DialTimeout host port\<close> tells whether the TCP connection to
  \<^verbatim>\<open>net.JoinHostPort(host, strconv.Itoa(port))\<close> opens within its 10 seconds.
\<close>

record netlib =
  ParseIP :: "string \<Rightarrow> bool"
  SplitHostPort :: "string \<Rightarrow> (string \<times> string) option"
  Atoi :: "string \<Rightarrow> int option"
  DialTimeout :: "string \<Rightarrow> int \<Rightarrow> bool"

text \<open>
  A configuration blob (\<^verbatim>\<open>*jsonutils.JSONDict\<close>) is modelled by what the driver reads from
  it. Every read is \<^verbatim>\<open>GetString(key)\<close> or \<^verbatim>\<open>Int(key)\<close> with the error dropped, which gives the
  zero value for an absent key; so a blob is the six values those reads give, and
  \<^verbatim>\<open>jsonutils.NewDict()\<close> is the blob of zero values. The blob is never \<^verbatim>\<open>nil\<close> here.
\<close>

record JSONDict =
  target :: string
  iqn :: string
  portal :: string
  username :: string
  password :: string
  lun_id :: int

definition NewDict :: JSONDict where
  "NewDict = \<lparr>target = [], iqn = [], portal = [], username = [], password = [], lun_id = 0\<rparr>"

text \<open>
  \<^verbatim>\<open>api.StorageCreateInput\<close> and \<^verbatim>\<open>api.StorageUpdateInput\<close>, with the fields the driver uses.
  The fields of the update input carry the prefix \<open>Upd\<close>, since one theory cannot declare
  a field name twice.
\<close>

record StorageCreateInput =
  IscsiTarget :: string
  IscsiIqn :: string
  IscsiPortal :: string
  IscsiUsername :: string
  IscsiPassword :: string
  IscsiLunId :: int
  StorageConf :: JSONDict

record StorageUpdateInput =
  UpdIscsiUsername :: string
  UpdIscsiPassword :: string
  UpdStorageConf :: JSONDict
  UpdateStorageConf :: bool

text \<open>
  The storage and cache records of the persistence layer, \<^verbatim>\<open>models.SStorage\<close> and
  \<^verbatim>\<open>models.SStoragecache\<close>, with the fields the driver uses. The field \<^verbatim>\<open>Id\<close> of a
  storage record is \<open>Id'\<close>, the name \<open>Id\<close> being the identity relation of HOL; the fields
  of a cache record carry the prefix \<open>Cache\<close>.
\<close>

record SStorage =
  Id' :: string
  Name :: string
  Status :: string
  StoragecacheId :: string
  StorageType :: string
  Conf :: JSONDict

record SStoragecache =
  CacheId :: string
  CacheName :: string
  CachePath :: string
  CacheExternalId :: string

record db =
  storages :: "SStorage list"
  storagecaches :: "SStoragecache list"

definition STORAGE_ISCSI :: string where
  "STORAGE_ISCSI = ''iscsi''"

definition STORAGE_ONLINE :: string where
  "STORAGE_ONLINE = ''online''"

text \<open>
  How the persistence layer answers during one request: whether the query, the insert and
  the update succeed, and the identifier it gives to a record it inserts.
\<close>

record persistence =
  fetch_ok :: bool
  insert_ok :: bool
  update_ok :: bool
  new_id :: string

text \<open>
  Modelled from the spec: \<^verbatim>\<open>db.FetchModelObjects\<close> on the query
  \<^verbatim>\<open>Equals("storage_type", api.STORAGE_ISCSI)\<close> is not under src. It is the spec's
  query-by-equality on the storage type, in table order, or an error.
\<close>

definition FetchModelObjects :: "persistence \<Rightarrow> db \<Rightarrow> SStorage list option" where
  "FetchModelObjects ps d =
     (if fetch_ok ps then Some (filter (\<lambda>s. StorageType s = STORAGE_ISCSI) (storages d))
      else None)"

text \<open>
  Modelled from the spec: \<^verbatim>\<open>db.Update\<close> is not under src. On success the row with the
  record's identifier holds the changed record; on failure the table is left in its prior
  state. The result tells whether it succeeded.
\<close>

definition db_Update :: "persistence \<Rightarrow> db \<Rightarrow> SStorage \<Rightarrow> (SStorage \<Rightarrow> SStorage) \<Rightarrow> db" where
  "db_Update ps d s f =
     (if update_ok ps
      then d\<lparr>storages := map (\<lambda>r. if Id' r = Id' s then f s else r) (storages d)\<rparr>
      else d)"

text \<open>
  Modelled from the spec: the insert of \<^verbatim>\<open>StoragecacheManager.TableSpec()\<close> is not under
  src. On success the cache record is persisted under the identifier the persistence layer
  gives it.
\<close>

definition db_Insert :: "persistence \<Rightarrow> db \<Rightarrow> SStoragecache \<Rightarrow> (db \<times> SStoragecache) option" where
  "db_Insert ps d sc =
     (if insert_ok ps
      then (let sc' = sc\<lparr>CacheId := new_id ps\<rparr>
            in Some (d\<lparr>storagecaches := storagecaches d @ [sc']\<rparr>, sc'))
      else None)"

subsection \<open>String helpers of the standard library\<close>

definition isSpace :: "char \<Rightarrow> bool" where
  "isSpace c \<longleftrightarrow> c \<in> set [CHR 0x09, CHR 0x0A, CHR 0x0B, CHR 0x0C, CHR 0x0D, CHR '' '']"

definition TrimSpace :: "string \<Rightarrow> string" where
  "TrimSpace s = rev (dropWhile isSpace (rev (dropWhile isSpace s)))"

definition ContainsAny :: "string \<Rightarrow> string \<Rightarrow> bool" where
  "ContainsAny s chars \<longleftrightarrow> (\<exists>c \<in> set s. c \<in> set chars)"

subsection \<open>validateIQN\<close>

definition digit :: "char \<Rightarrow> bool" where
  "digit c \<longleftrightarrow> c \<in> set ''0123456789''"

definition alnum :: "char \<Rightarrow> bool" where
  "alnum c \<longleftrightarrow>
     c \<in> set ''abcdefghijklmnopqrstuvwxyzABCDEFGHIJKLMNOPQRSTUVWXYZ0123456789''"

text \<open>The classes \<^verbatim>\<open>[a-zA-Z0-9\-\.]\<close> and \<^verbatim>\<open>[a-zA-Z0-9\-\._:]\<close>.\<close>

definition authority_char :: "char \<Rightarrow> bool" where
  "authority_char c \<longleftrightarrow> alnum c \<or> c = CHR ''-'' \<or> c = CHR ''.''"

definition name_char :: "char \<Rightarrow> bool" where
  "name_char c \<longleftrightarrow> alnum c \<or> c = CHR ''-'' \<or> c = CHR ''.'' \<or> c = CHR ''_'' \<or> c = CHR '':''"

text \<open>
  \<^verbatim>\<open>^iqn\.\d{4}-\d{2}\.([a-zA-Z0-9\-\.]+):([a-zA-Z0-9\-\._:]+)$\<close>. The anchors make it a match
  of the whole text (without the multi-line flag \<^verbatim>\<open>$\<close> is the end of the text), and
  \<^verbatim>\<open>\d\<close> is an ASCII digit.
\<close>

definition iqnPattern :: rexp where
  "iqnPattern =
     Seq (lits ''iqn'') (Seq (chr CHR ''.'')
       (Seq (rep 4 (Atom digit)) (Seq (chr CHR ''-'')
         (Seq (rep 2 (Atom digit)) (Seq (chr CHR ''.'')
           (Seq (Plus (Atom authority_char)) (Seq (chr CHR '':'')
             (Plus (Atom name_char)))))))))"

text \<open>
  The constant pattern compiles, so the error branch of \<^verbatim>\<open>regexp.MatchString\<close> is never
  taken and has no counterpart here.
\<close>

definition validateIQN :: "string \<Rightarrow> verror option" where
  "validateIQN q =
     (if length q = 0 then Some IQNEmpty
      else if \<not> rmatch iqnPattern q then Some IQNFormat
      else if length q > 223 then Some IQNTooLong
      else None)"

text \<open>
  The spec's words for a well-formed qualified name:
  \<^verbatim>\<open>iqn.<4-digit year>-<2-digit month>.<authority>:<unique-name>\<close>, the authority
  a non-empty run of letters, digits, hyphens and dots, the name a non-empty run of those,
  underscores and colons.
\<close>

definition iqn_wellformed :: "string \<Rightarrow> bool" where
  "iqn_wellformed q \<longleftrightarrow>
     (\<exists>y m a n. q = ''iqn.'' @ y @ ''-'' @ m @ ''.'' @ a @ '':'' @ n
        \<and> length y = 4 \<and> list_all digit y
        \<and> length m = 2 \<and> list_all digit m
        \<and> a \<noteq> [] \<and> list_all authority_char a
        \<and> n \<noteq> [] \<and> list_all name_char n)"


subsection \<open>The field validators\<close>

definition validateTargetAddress :: "netlib \<Rightarrow> string \<Rightarrow> verror option" where
  "validateTargetAddress lib t =
     (if length t = 0 then Some TargetEmpty
      else if \<not> ParseIP lib t then Some TargetInvalidIP
      else None)"

definition validatePortalAddress :: "netlib \<Rightarrow> string \<Rightarrow> verror option" where
  "validatePortalAddress lib p =
     (if length p = 0 then Some PortalEmpty
      else case SplitHostPort lib p of
        None \<Rightarrow> Some PortalFormat
      | Some (host, portStr) \<Rightarrow>
          if \<not> ParseIP lib host then Some PortalInvalidIP
          else (case Atoi lib portStr of
              None \<Rightarrow> Some PortalInvalidPort
            | Some port \<Rightarrow>
                if port < 1 \<or> port > 65535 then Some PortalPortRange else None))"

definition validateAuthParams :: "string \<Rightarrow> string \<Rightarrow> verror option" where
  "validateAuthParams u pw =
     (if length u > 0 \<and> length pw = 0 then Some PasswordRequired
      else if length pw > 0 \<and> length u = 0 then Some UsernameRequired
      else if length u > 0 \<and> length u > 255 then Some UsernameTooLong
      else if length u > 0 \<and> ContainsAny u [CHR '' '', CHR 0x09, CHR 0x0A, CHR 0x0D]
        then Some UsernameWhitespace
      else if length pw > 0 \<and> length pw > 255 then Some PasswordTooLong
      else None)"

subsection \<open>checkDuplicateStorage\<close>

text \<open>The loop over the fetched records; the first record with the same tuple ends it.\<close>

fun duplicate_scan :: "StorageCreateInput \<Rightarrow> SStorage list \<Rightarrow> httperror option" where
  "duplicate_scan input [] = None"
| "duplicate_scan input (s # rest) =
     (let t = target (Conf s); q = iqn (Conf s); p = portal (Conf s); l = lun_id (Conf s)
      in if IscsiTarget input = t \<and> IscsiIqn input = q \<and> IscsiPortal input = p
            \<and> IscsiLunId input = l
         then Some (DuplicateResourceError t q p l)
         else duplicate_scan input rest)"

definition checkDuplicateStorage ::
  "persistence \<Rightarrow> db \<Rightarrow> StorageCreateInput \<Rightarrow> httperror option" where
  "checkDuplicateStorage ps d input =
     (case FetchModelObjects ps d of
        None \<Rightarrow> Some GeneralError
      | Some fetched \<Rightarrow> duplicate_scan input fetched)"

subsection \<open>The connectivity probes\<close>

definition testIscsiConnection :: "netlib \<Rightarrow> StorageCreateInput \<Rightarrow> verror option" where
  "testIscsiConnection lib input =
     (case SplitHostPort lib (IscsiPortal input) of
        None \<Rightarrow> Some ParsePortalFailed
      | Some (host, portStr) \<Rightarrow>
          (case Atoi lib portStr of
             None \<Rightarrow> Some InvalidPortInPortal
           | Some port \<Rightarrow>
               if DialTimeout lib host port then None
               else Some (ConnectFailed (IscsiPortal input))))"

definition testIscsiConnectionUpdate :: "netlib \<Rightarrow> StorageUpdateInput \<Rightarrow> verror option" where
  "testIscsiConnectionUpdate lib input =
     (let t = target (UpdStorageConf input);
          q = iqn (UpdStorageConf input);
          p = portal (UpdStorageConf input)
      in if length t = 0 \<or> length q = 0 \<or> length p = 0 then Some MissingConfParams
         else case SplitHostPort lib p of
           None \<Rightarrow> Some ParsePortalFailed
         | Some (host, portStr) \<Rightarrow>
             (case Atoi lib portStr of
                None \<Rightarrow> Some InvalidPortInPortal
              | Some port \<Rightarrow>
                  if DialTimeout lib host port then None else Some (ConnectFailed p)))"

subsection \<open>ValidateCreateData\<close>

text \<open>
  The input is a pointer and the function writes to it, so the model returns the input as
  the function leaves it together with the error. The steps up to the authentication check
  only read the input; they are gathered in \<open>validateFields\<close>, in the order of the source.

  Modelled from the spec: \<^verbatim>\<open>api.IscsiStorageConf\<close> and its rendering by
  \<^verbatim>\<open>jsonutils.Marshal\<close> are not under src. The blob written at the end holds the
  trimmed string fields and the LUN number under the keys that \<^verbatim>\<open>checkDuplicateStorage\<close>
  and \<^verbatim>\<open>PostCreate\<close> read back.
\<close>

definition validateFields :: "netlib \<Rightarrow> StorageCreateInput \<Rightarrow> httperror option" where
  "validateFields lib input =
     (if length (IscsiTarget input) = 0 then Some (MissingParameterError ''iscsi_target'')
      else case validateTargetAddress lib (IscsiTarget input) of
        Some e \<Rightarrow> Some (InputParameterError ''invalid iscsi_target'' e)
      | None \<Rightarrow>
      if length (IscsiIqn input) = 0 then Some (MissingParameterError ''iscsi_iqn'')
      else case validateIQN (IscsiIqn input) of
        Some e \<Rightarrow> Some (InputParameterError ''invalid iscsi_iqn'' e)
      | None \<Rightarrow>
      if length (IscsiPortal input) = 0 then Some (MissingParameterError ''iscsi_portal'')
      else case validatePortalAddress lib (IscsiPortal input) of
        Some e \<Rightarrow> Some (InputParameterError ''invalid iscsi_portal'' e)
      | None \<Rightarrow>
      (case validateAuthParams (IscsiUsername input) (IscsiPassword input) of
        Some e \<Rightarrow> Some (InputParameterError ''invalid authentication parameters'' e)
      | None \<Rightarrow> None))"

definition defaultLunId :: "StorageCreateInput \<Rightarrow> StorageCreateInput" where
  "defaultLunId input = (if IscsiLunId input < 0 then input\<lparr>IscsiLunId := 0\<rparr> else input)"

definition ValidateCreateData ::
  "netlib \<Rightarrow> persistence \<Rightarrow> db \<Rightarrow> StorageCreateInput \<Rightarrow> StorageCreateInput \<times> httperror option" where
  "ValidateCreateData lib ps d input0 =
     (let input = input0\<lparr>StorageConf := NewDict\<rparr>
      in case validateFields lib input of
        Some e \<Rightarrow> (input, Some e)
      | None \<Rightarrow>
          (let input = defaultLunId input
           in case checkDuplicateStorage ps d input of
             Some e \<Rightarrow> (input, Some e)
           | None \<Rightarrow>
               (case testIscsiConnection lib input of
                  Some e \<Rightarrow> (input, Some (BadRequestError ''iSCSI connection test failed'' e))
                | None \<Rightarrow>
                    (input\<lparr>StorageConf := (StorageConf input)
                        \<lparr>target := TrimSpace (IscsiTarget input),
                         iqn := TrimSpace (IscsiIqn input),
                         portal := TrimSpace (IscsiPortal input),
                         username := TrimSpace (IscsiUsername input),
                         password := TrimSpace (IscsiPassword input),
                         lun_id := IscsiLunId input\<rparr>\<rparr>,
                     None))))"

subsection \<open>ValidateUpdateData\<close>

text \<open>
  \<^verbatim>\<open>SBaseStorageDriver.ValidateUpdateData\<close> is not under src; it is the parameter \<open>base\<close>.
  The input is passed by value and returned; its blob is a pointer, so what is set in it is
  set for the caller as well.
\<close>

definition setCredentials :: "StorageUpdateInput \<Rightarrow> StorageUpdateInput" where
  "setCredentials input0 =
     (let input =
            (if length (UpdIscsiUsername input0) > 0
             then input0\<lparr>UpdStorageConf := (UpdStorageConf input0)
                            \<lparr>username := TrimSpace (UpdIscsiUsername input0)\<rparr>,
                          UpdateStorageConf := True\<rparr>
             else input0)
      in if length (UpdIscsiPassword input) > 0
         then input\<lparr>UpdStorageConf := (UpdStorageConf input)
                        \<lparr>password := TrimSpace (UpdIscsiPassword input)\<rparr>,
                      UpdateStorageConf := True\<rparr>
         else input)"

definition ValidateUpdateData ::
  "netlib \<Rightarrow> (StorageUpdateInput \<Rightarrow> StorageUpdateInput \<times> httperror option)
     \<Rightarrow> StorageUpdateInput \<Rightarrow> StorageUpdateInput \<times> httperror option" where
  "ValidateUpdateData lib base input =
     (if length (UpdIscsiUsername input) > 0 \<or> length (UpdIscsiPassword input) > 0
      then case validateAuthParams (UpdIscsiUsername input) (UpdIscsiPassword input) of
        Some e \<Rightarrow> (input, Some (InputParameterError ''invalid authentication parameters'' e))
      | None \<Rightarrow>
          (let input = setCredentials input
           in case testIscsiConnectionUpdate lib input of
             Some e \<Rightarrow>
               (input,
                Some (BadRequestError
                  ''iSCSI connection test failed with updated configuration'' e))
           | None \<Rightarrow> base input)
      else base input)"

subsection \<open>PostCreate\<close>

text \<open>
  The loop that looks for a sibling: a fetched record other than the storage itself with
  the same target, qualified name and portal, and with a cache reference.
\<close>

fun find_sibling :: "SStorage \<Rightarrow> SStorage list \<Rightarrow> SStorage option" where
  "find_sibling storage [] = None"
| "find_sibling storage (x # xs) =
     (if Id' x = Id' storage then find_sibling storage xs
      else if target (Conf storage) = target (Conf x)
            \<and> iqn (Conf storage) = iqn (Conf x)
            \<and> portal (Conf storage) = portal (Conf x)
            \<and> length (StoragecacheId x) > 0
      then Some x
      else find_sibling storage xs)"

text \<open>
  \<open>PostCreate\<close> returns nothing; what it does, it does to the tables. \<open>cachedir\<close> is
  \<^verbatim>\<open>options.Options.DefaultImageCacheDir\<close>.
\<close>

definition PostCreate :: "persistence \<Rightarrow> string \<Rightarrow> db \<Rightarrow> SStorage \<Rightarrow> db" where
  "PostCreate ps cachedir d storage =
     (if length (StoragecacheId storage) > 0
      then db_Update ps d storage (\<lambda>s. s\<lparr>Status := STORAGE_ONLINE\<rparr>)
      else case FetchModelObjects ps d of
        None \<Rightarrow> d
      | Some fetched \<Rightarrow>
          (case find_sibling storage fetched of
             Some x \<Rightarrow>
               db_Update ps d storage
                 (\<lambda>s. s\<lparr>StoragecacheId := StoragecacheId x, Status := STORAGE_ONLINE\<rparr>)
           | None \<Rightarrow>
               (case db_Insert ps d
                       \<lparr>CacheId = [], CacheName = ''iscsi-cache-'' @ Id' storage,
                        CachePath = cachedir, CacheExternalId = Id' storage\<rparr> of
                  None \<Rightarrow> d
                | Some (d', sc) \<Rightarrow>
                    db_Update ps d' storage
                      (\<lambda>s. s\<lparr>StoragecacheId := CacheId sc, Status := STORAGE_ONLINE\<rparr>))))"

text \<open>
  The record-creation step of the persistence layer, which precedes \<open>PostCreate\<close>: the new
  row is added to the table.
\<close>

definition create_storage :: "db \<Rightarrow> SStorage \<Rightarrow> db" where
  "create_storage d s = d\<lparr>storages := storages d @ [s]\<rparr>"

definition lookup_storage :: "db \<Rightarrow> string \<Rightarrow> SStorage option" where
  "lookup_storage d i = find (\<lambda>r. Id' r = i) (storages d)"

definition cache_of :: "db \<Rightarrow> string \<Rightarrow> string option" where
  "cache_of d i = map_option StoragecacheId (lookup_storage d i)"

definition status_of :: "db \<Rightarrow> string \<Rightarrow> string option" where
  "status_of d i = map_option Status (lookup_storage d i)"

definition iscsi_rows :: "SStorage list \<Rightarrow> SStorage list" where
  "iscsi_rows xs = filter (\<lambda>s. StorageType s = STORAGE_ISCSI) xs"

text \<open>
  The cache reference \<open>PostCreate\<close> gives to a record that has none: that of the first
  sibling, or else the identifier of the cache record it inserts.
\<close>

definition chosen_cache :: "persistence \<Rightarrow> db \<Rightarrow> SStorage \<Rightarrow> string" where
  "chosen_cache ps d s =
     (case find_sibling s (iscsi_rows (storages d)) of
        Some x \<Rightarrow> StoragecacheId x
      | None \<Rightarrow> new_id ps)"


section \<open>The host-side storage: \<^verbatim>\<open>pkg/hostman/storageman/storage_iscsi.go\<close>\<close>

subsection \<open>Errors\<close>

text \<open>
  \<open>CommandError\<close> is the failure of an \<^verbatim>\<open>iscsiadm\<close> run with the output it printed, and
  \<open>Wrapf\<close> is \<^verbatim>\<open>errors.Wrapf\<close>: the message put in front and the cause kept underneath.
\<close>

datatype herror =
    UnmarshalError
  | CommandError string
  | TargetNotFound string
  | DeviceTimeout
  | ReadDirError
  | DeviceNotFound string int
  | Wrapf string herror

subsection \<open>State\<close>

record SIscsiStorageConf =
  Target :: string
  Iqn :: string
  Portal :: string
  Username :: string
  Password :: string
  LunId :: int

text \<open>
  The instance: the fields of the embedded \<^verbatim>\<open>SBaseStorage\<close> that \<^verbatim>\<open>SetStorageInfo\<close> writes
  (its \<^verbatim>\<open>StorageConf\<close> is the field \<open>BaseStorageConf\<close>), the embedded configuration, and the
  runtime state. The JSON objects are of a type \<open>'j\<close> that the model does not look into.
  The mutex \<^verbatim>\<open>connectionMu\<close> makes \<^verbatim>\<open>MountStorage\<close> and \<^verbatim>\<open>UnmountStorage\<close> run one at a time;
  the model is of such a sequence of whole calls.
\<close>

record 'j SIscsiStorage =
  StorageId :: string
  StorageName :: string
  BaseStorageConf :: "'j option"
  conf :: SIscsiStorageConf
  devicePath :: string
  isConnected :: bool

text \<open>
  \<^verbatim>\<open>NewBaseStorage\<close> is not under src: what it puts into the base fields is the three
  arguments. The fields declared in \<^verbatim>\<open>SIscsiStorage\<close> start at their zero values.
\<close>

definition NewIscsiStorage :: "string \<Rightarrow> string \<Rightarrow> 'j option \<Rightarrow> 'j SIscsiStorage" where
  "NewIscsiStorage base_id base_name base_conf =
     \<lparr>StorageId = base_id, StorageName = base_name, BaseStorageConf = base_conf,
      conf = \<lparr>Target = [], Iqn = [], Portal = [], Username = [], Password = [], LunId = 0\<rparr>,
      devicePath = [], isConnected = False\<rparr>"

subsection \<open>SetStorageInfo\<close>

text \<open>
  \<^verbatim>\<open>jsonutils\<close> is a parameter: \<open>isJSONDict\<close> is the type assertion
  \<^verbatim>\<open>conf.(*jsonutils.JSONDict)\<close>, and \<open>Unmarshal c old\<close> gives the configuration struct as
  \<^verbatim>\<open>conf.Unmarshal\<close> leaves it, starting from \<open>old\<close>, and whether it returned no error.
  The argument \<open>cnf\<close> is \<^const>\<open>None\<close> for a \<^verbatim>\<open>nil\<close> object.
\<close>

record 'j jsonlib =
  isJSONDict :: "'j \<Rightarrow> bool"
  Unmarshal :: "'j \<Rightarrow> SIscsiStorageConf \<Rightarrow> SIscsiStorageConf \<times> bool"

definition SetStorageInfo ::
  "'j jsonlib \<Rightarrow> string \<Rightarrow> string \<Rightarrow> 'j option \<Rightarrow> 'j SIscsiStorage
     \<Rightarrow> 'j SIscsiStorage \<times> herror option" where
  "SetStorageInfo lib storageId storageName cnf s0 =
     (let s = s0\<lparr>StorageId := storageId, StorageName := storageName\<rparr>
      in case cnf of
        None \<Rightarrow> (s, None)
      | Some c \<Rightarrow>
          (let s = (if isJSONDict lib c then s\<lparr>BaseStorageConf := Some c\<rparr> else s);
               (cf, ok) = Unmarshal lib c (conf s)
           in if ok then (s\<lparr>conf := cf\<rparr>, None)
              else (s\<lparr>conf := cf\<rparr>, Some (Wrapf ''unmarshal iSCSI storage config'' UnmarshalError))))"

subsection \<open>Running iscsiadm\<close>

text \<open>
  The host answers an \<^verbatim>\<open>iscsiadm\<close> run, given by its argument list, with the output and
  whether the run succeeded. No call below runs the same argument list twice, so one
  function per call is as general as a sequence of answers. Every function returns, with
  its error, the argument lists it ran, in order.
\<close>

record hostenv =
  iscsiadm :: "string list \<Rightarrow> string \<times> bool"

fun Contains :: "string \<Rightarrow> string \<Rightarrow> bool" where
  "Contains [] sub = (sub = [])"
| "Contains (c # cs) sub = (take (length sub) (c # cs) = sub \<or> Contains cs sub)"

definition discovery_args :: "'j SIscsiStorage \<Rightarrow> string list" where
  "discovery_args s =
     [''-m'', ''discovery'', ''-t'', ''sendtargets'', ''-p'', Portal (conf s)]
     @ (if Username (conf s) \<noteq> [] \<and> Password (conf s) \<noteq> []
        then [''--username'', Username (conf s), ''--password'', Password (conf s)]
        else [])"

definition discoverTarget :: "hostenv \<Rightarrow> 'j SIscsiStorage \<Rightarrow> herror option \<times> string list list" where
  "discoverTarget env s =
     (let (output, ok) = iscsiadm env (discovery_args s)
      in (if \<not> ok then Some (Wrapf ''iscsiadm discovery failed'' (CommandError output))
          else if \<not> Contains output (Iqn (conf s)) then Some (TargetNotFound (Iqn (conf s)))
          else None,
          [discovery_args s]))"

definition node_args :: "'j SIscsiStorage \<Rightarrow> string list" where
  "node_args s = [''-m'', ''node'', ''-T'', Iqn (conf s), ''-p'', Portal (conf s)]"

definition setNodeParam ::
  "hostenv \<Rightarrow> 'j SIscsiStorage \<Rightarrow> string \<Rightarrow> string \<Rightarrow> herror option \<times> string list list" where
  "setNodeParam env s param v =
     (let args = node_args s @ [''-o'', ''update'', ''-n'', param, ''-v'', v];
          (output, ok) = iscsiadm env args
      in (if \<not> ok then Some (Wrapf (''failed to set node parameter '' @ param) (CommandError output))
          else None,
          [args]))"

definition setAuthParams :: "hostenv \<Rightarrow> 'j SIscsiStorage \<Rightarrow> herror option \<times> string list list" where
  "setAuthParams env s =
     (case setNodeParam env s ''node.session.auth.authmethod'' ''CHAP'' of
        (Some e, t1) \<Rightarrow> (Some e, t1)
      | (None, t1) \<Rightarrow>
          (case setNodeParam env s ''node.session.auth.username'' (Username (conf s)) of
             (Some e, t2) \<Rightarrow> (Some e, t1 @ t2)
           | (None, t2) \<Rightarrow>
               (case setNodeParam env s ''node.session.auth.password'' (Password (conf s)) of
                  (r, t3) \<Rightarrow> (r, t1 @ t2 @ t3))))"

definition login_args :: "'j SIscsiStorage \<Rightarrow> string list" where
  "login_args s = node_args s @ [''--login'']"

definition loginTarget :: "hostenv \<Rightarrow> 'j SIscsiStorage \<Rightarrow> herror option \<times> string list list" where
  "loginTarget env s =
     (case (if Username (conf s) \<noteq> [] \<and> Password (conf s) \<noteq> []
            then setAuthParams env s else (None, [])) of
        (Some e, t1) \<Rightarrow> (Some (Wrapf ''set authentication parameters'' e), t1)
      | (None, t1) \<Rightarrow>
          (let (output, ok) = iscsiadm env (login_args s)
           in (if \<not> ok
               then (if Contains output ''already exists'' then None
                     else Some (Wrapf ''iscsiadm login failed'' (CommandError output)))
               else None,
               t1 @ [login_args s])))"

definition logout_args :: "'j SIscsiStorage \<Rightarrow> string list" where
  "logout_args s = node_args s @ [''--logout'']"

definition logoutTarget :: "hostenv \<Rightarrow> 'j SIscsiStorage \<Rightarrow> herror option \<times> string list list" where
  "logoutTarget env s =
     (let (output, ok) = iscsiadm env (logout_args s)
      in (if \<not> ok
          then (if Contains output ''not found'' then None
                else Some (Wrapf ''iscsiadm logout failed'' (CommandError output)))
          else None,
          [logout_args s]))"

definition delete_args :: "'j SIscsiStorage \<Rightarrow> string list" where
  "delete_args s = node_args s @ [''-o'', ''delete'']"

definition cleanupDiscovery :: "hostenv \<Rightarrow> 'j SIscsiStorage \<Rightarrow> herror option \<times> string list list" where
  "cleanupDiscovery env s =
     (let (output, ok) = iscsiadm env (delete_args s)
      in (if \<not> ok
          then (if Contains output ''not found'' then None
                else Some (Wrapf ''cleanup discovery failed'' (CommandError output)))
          else None,
          [delete_args s]))"

subsection \<open>findDevicePath\<close>

text \<open>
  The file system as one call sees it: the entry names of \<^verbatim>\<open>/dev/disk/by-path\<close> in the
  order \<^verbatim>\<open>os.ReadDir\<close> returns them, or \<^const>\<open>None\<close> when it fails, and what
  \<^verbatim>\<open>filepath.EvalSymlinks\<close> gives for a path, \<^const>\<open>None\<close> when it fails.
\<close>

record fs =
  ReadDir :: "string list option"
  EvalSymlinks :: "string \<Rightarrow> string option"

definition byPathDir :: string where
  "byPathDir = ''/dev/disk/by-path''"

text \<open>\<^verbatim>\<open>%d\<close>: the decimal digits of a number, with a minus sign when it is negative.\<close>

function digits_of :: "nat \<Rightarrow> string" where
  "digits_of n =
     (if n < 10 then [''0123456789'' ! n] else digits_of (n div 10) @ [''0123456789'' ! (n mod 10)])"
  by pat_completeness auto
termination
  by (relation "measure id") auto

definition Sprintf_d :: "int \<Rightarrow> string" where
  "Sprintf_d i = (if i < 0 then ''-'' @ digits_of (nat (- i)) else digits_of (nat i))"

text \<open>\<^verbatim>\<open>strings.Split(s.Portal, ":")[0]\<close>: the text before the first colon.\<close>

definition targetIP :: "SIscsiStorageConf \<Rightarrow> string" where
  "targetIP c = takeWhile (\<lambda>x. x \<noteq> CHR '':'') (Portal c)"

text \<open>
  The pattern \<^verbatim>\<open>ip-%s.*-iscsi-%s-lun-%d\<close>. \<^verbatim>\<open>regexp.QuoteMeta\<close> makes the host and the
  qualified name match as they are written, so they are literals of the pattern. The
  pattern of an ASCII host and name compiles, so the error branch of \<^verbatim>\<open>regexp.Compile\<close> has
  no counterpart here.
\<close>

definition devicePattern :: "SIscsiStorageConf \<Rightarrow> rexp" where
  "devicePattern c =
     Seq (lits ''ip-'') (Seq (lits (targetIP c)) (Seq (Star dot)
       (Seq (lits ''-iscsi-'') (Seq (lits (Iqn c))
         (Seq (lits ''-lun-'') (lits (Sprintf_d (LunId c))))))))"

definition entry_matches :: "SIscsiStorageConf \<Rightarrow> string \<Rightarrow> bool" where
  "entry_matches c name = rmatch (unanchored (devicePattern c)) name"

text \<open>
  The loop over the entries. An entry name has no separator, so \<^verbatim>\<open>filepath.Join\<close> puts
  the directory and a slash in front of it. A matching entry whose link does not resolve is
  passed over.
\<close>

fun scan_entries :: "fs \<Rightarrow> SIscsiStorageConf \<Rightarrow> string list \<Rightarrow> herror + string" where
  "scan_entries f c [] = Inl (DeviceNotFound (Iqn c) (LunId c))"
| "scan_entries f c (name # rest) =
     (if entry_matches c name
      then (case EvalSymlinks f (byPathDir @ ''/'' @ name) of
              None \<Rightarrow> scan_entries f c rest
            | Some realPath \<Rightarrow> Inr realPath)
      else scan_entries f c rest)"

definition findDevicePath :: "fs \<Rightarrow> 'j SIscsiStorage \<Rightarrow> herror + string" where
  "findDevicePath f s =
     (case ReadDir f of
        None \<Rightarrow> Inl (Wrapf ''read /dev/disk/by-path'' ReadDirError)
      | Some entries \<Rightarrow> scan_entries f (conf s) entries)"

subsection \<open>waitForDevice\<close>

text \<open>
  The clock is not modelled. The loop polls while the deadline of 30 seconds has not
  passed and sleeps a second after each poll, so it polls finitely often: the argument is
  the list of the file-system states met by the polls made before the deadline. The loop
  returns at the first poll that gives a non-empty path and fails when they run out.
\<close>

fun waitForDevice :: "fs list \<Rightarrow> 'j SIscsiStorage \<Rightarrow> herror + string" where
  "waitForDevice [] s = Inl DeviceTimeout"
| "waitForDevice (f # polls) s =
     (case findDevicePath f s of
        Inr p \<Rightarrow> if p \<noteq> [] then Inr p else waitForDevice polls s
      | Inl e \<Rightarrow> waitForDevice polls s)"

subsection \<open>MountStorage and UnmountStorage\<close>

definition MountStorage ::
  "hostenv \<Rightarrow> fs list \<Rightarrow> 'j SIscsiStorage
     \<Rightarrow> 'j SIscsiStorage \<times> herror option \<times> string list list" where
  "MountStorage env polls s =
     (if isConnected s then (s, None, [])
      else case discoverTarget env s of
        (Some e, t1) \<Rightarrow> (s, Some (Wrapf ''discover iSCSI target'' e), t1)
      | (None, t1) \<Rightarrow>
          (case loginTarget env s of
             (Some e, t2) \<Rightarrow> (s, Some (Wrapf ''login to iSCSI target'' e), t1 @ t2)
           | (None, t2) \<Rightarrow>
               (case waitForDevice polls s of
                  Inl e \<Rightarrow>
                    (s, Some (Wrapf ''wait for iSCSI device'' e),
                     t1 @ t2 @ snd (logoutTarget env s))
                | Inr p \<Rightarrow> (s\<lparr>devicePath := p, isConnected := True\<rparr>, None, t1 @ t2))))"

definition UnmountStorage ::
  "hostenv \<Rightarrow> 'j SIscsiStorage \<Rightarrow> 'j SIscsiStorage \<times> herror option \<times> string list list" where
  "UnmountStorage env s =
     (if \<not> isConnected s then (s, None, [])
      else (s\<lparr>devicePath := [], isConnected := False\<rparr>, None,
            snd (logoutTarget env s) @ snd (cleanupDiscovery env s)))"

text \<open>
  The states an instance can be in: it is constructed, and then configured, mounted and
  unmounted in any order, whatever the host answers.
\<close>

inductive reachable :: "'j SIscsiStorage \<Rightarrow> bool" where
  reachable_new: "reachable (NewIscsiStorage base_id base_name base_conf)"
| reachable_set: "reachable s \<Longrightarrow> reachable (fst (SetStorageInfo lib i n cnf s))"
| reachable_mount: "reachable s \<Longrightarrow> reachable (fst (MountStorage env polls s))"
| reachable_unmount: "reachable s \<Longrightarrow> reachable (fst (UnmountStorage env s))"


section \<open>Example inputs\<close>

text \<open>
  The environments and inputs of the examples. The library answers are those of the Go
  standard library on the address \<^verbatim>\<open>192.168.1.100:3260\<close> of the repository's tests; the
  two libraries differ only in whether the portal can be reached.
\<close>

definition lib_reachable :: netlib where
  "lib_reachable =
     \<lparr>ParseIP = (\<lambda>s. s = ''192.168.1.100''),
      SplitHostPort =
        (\<lambda>s. if s = ''192.168.1.100:3260'' then Some (''192.168.1.100'', ''3260'') else None),
      Atoi = (\<lambda>s. if s = ''3260'' then Some 3260 else None),
      DialTimeout = (\<lambda>host port. True)\<rparr>"

definition lib_unreachable :: netlib where
  "lib_unreachable = lib_reachable\<lparr>DialTimeout := (\<lambda>host port. False)\<rparr>"

definition ps_ok :: persistence where
  "ps_ok = \<lparr>fetch_ok = True, insert_ok = True, update_ok = True, new_id = ''cache-1''\<rparr>"

definition db_empty :: db where
  "db_empty = \<lparr>storages = [], storagecaches = []\<rparr>"

definition create_input :: "int \<Rightarrow> StorageCreateInput" where
  "create_input l =
     \<lparr>IscsiTarget = ''192.168.1.100'', IscsiIqn = ''iqn.2023-01.com.example:t1'',
      IscsiPortal = ''192.168.1.100:3260'', IscsiUsername = [], IscsiPassword = [],
      IscsiLunId = l, StorageConf = NewDict\<rparr>"

definition stored_conf :: "int \<Rightarrow> JSONDict" where
  "stored_conf l =
     \<lparr>target = ''192.168.1.100'', iqn = ''iqn.2023-01.com.example:t1'',
      portal = ''192.168.1.100:3260'', username = [], password = [], lun_id = l\<rparr>"

definition db_one :: db where
  "db_one =
     \<lparr>storages =
        [\<lparr>Id' = ''s1'', Name = ''first'', Status = ''online'', StoragecacheId = ''cache-0'',
          StorageType = ''iscsi'', Conf = stored_conf 0\<rparr>],
      storagecaches = []\<rparr>"

definition update_input :: StorageUpdateInput where
  "update_input =
     \<lparr>UpdIscsiUsername = ''newuser'', UpdIscsiPassword = ''newpass'',
      UpdStorageConf = stored_conf 0, UpdateStorageConf = False\<rparr>"

definition base_accept :: "StorageUpdateInput \<Rightarrow> StorageUpdateInput \<times> httperror option" where
  "base_accept input = (input, None)"

definition is_duplicate_error :: "httperror option \<Rightarrow> bool" where
  "is_duplicate_error e =
     (case e of Some (DuplicateResourceError t q p l) \<Rightarrow> True | _ \<Rightarrow> False)"

definition example_storage :: "string \<Rightarrow> string \<Rightarrow> int \<Rightarrow> SStorage" where
  "example_storage i p l =
     \<lparr>Id' = i, Name = i, Status = ''offline'', StoragecacheId = [], StorageType = ''iscsi'',
      Conf = (stored_conf l)\<lparr>portal := p\<rparr>\<rparr>"

definition ps_new :: "string \<Rightarrow> persistence" where
  "ps_new i = \<lparr>fetch_ok = True, insert_ok = True, update_ok = True, new_id = i\<rparr>"

text \<open>
  Two records behind the same target, qualified name and portal with LUN numbers 0 and 1,
  a third behind another portal, created and reconciled in this order in an empty table.
\<close>

definition st_a :: SStorage where
  "st_a = example_storage ''a'' ''192.168.1.100:3260'' 0"

definition st_b :: SStorage where
  "st_b = example_storage ''b'' ''192.168.1.100:3260'' 1"

definition st_c :: SStorage where
  "st_c = example_storage ''c'' ''192.168.1.101:3260'' 0"

definition db_a :: db where
  "db_a = PostCreate (ps_new ''cache-a'') ''/cache'' (create_storage db_empty st_a) st_a"

definition db_b :: db where
  "db_b = PostCreate (ps_new ''cache-b'') ''/cache'' (create_storage db_a st_b) st_b"

definition db_c :: db where
  "db_c = PostCreate (ps_new ''cache-c'') ''/cache'' (create_storage db_b st_c) st_c"


text \<open>The host-side examples: a configured instance, and file systems for the resolver.\<close>

definition conf_lun :: "int \<Rightarrow> SIscsiStorageConf" where
  "conf_lun l =
     \<lparr>Target = ''10.0.0.1'', Iqn = ''iqn.2023-01.com.example:t1'', Portal = ''10.0.0.1:3260'',
      Username = [], Password = [], LunId = l\<rparr>"


text \<open>
  A JSON library whose \<^verbatim>\<open>Unmarshal\<close> fills in the configuration for LUN \<open>l\<close>, and one
  whose \<^verbatim>\<open>Unmarshal\<close> fails and leaves the struct as it was; the JSON object is \<open>()\<close>.
\<close>

definition json_lun :: "int \<Rightarrow> unit jsonlib" where
  "json_lun l = \<lparr>isJSONDict = (\<lambda>c. True), Unmarshal = (\<lambda>c old. (conf_lun l, True))\<rparr>"

definition json_bad :: "unit jsonlib" where
  "json_bad = \<lparr>isJSONDict = (\<lambda>c. True), Unmarshal = (\<lambda>c old. (old, False))\<rparr>"

definition host_storage :: "int \<Rightarrow> unit SIscsiStorage" where
  "host_storage l =
     fst (SetStorageInfo (json_lun l) ''id-1'' ''iscsi-1'' (Some ()) (NewIscsiStorage [] [] None))"

text \<open>A host on which every \<^verbatim>\<open>iscsiadm\<close> run succeeds and discovery lists the target.\<close>

definition env_ok :: hostenv where
  "env_ok = \<lparr>iscsiadm = (\<lambda>args. (''10.0.0.1:3260,1 iqn.2023-01.com.example:t1'', True))\<rparr>"

definition fs_none :: fs where
  "fs_none = \<lparr>ReadDir = Some [], EvalSymlinks = (\<lambda>p. None)\<rparr>"

text \<open>
  A directory with two links for LUN 1 of the target, reached through two ports of the
  host; the first link dangles, the second leads to \<^verbatim>\<open>/dev/sdc\<close>.
\<close>

definition entry_port :: "string \<Rightarrow> string" where
  "entry_port p = ''ip-10.0.0.1:'' @ p @ ''-iscsi-iqn.2023-01.com.example:t1-lun-1''"

definition fs_dangling :: fs where
  "fs_dangling =
     \<lparr>ReadDir = Some [entry_port ''3260'', entry_port ''3261''],
      EvalSymlinks =
        (\<lambda>p. if p = ''/dev/disk/by-path/'' @ entry_port ''3261'' then Some ''/dev/sdc'' else None)\<rparr>"



section \<open>The matcher decides the language of its pattern\<close>

lemma nullable_lang: "nullable r \<longleftrightarrow> [] \<in> lang r"
  by (induction r) (auto intro: star.star_nil)

lemma star_cons_split:
  assumes "x \<in> star L" and "x = c # w"
  shows "\<exists>u v. w = u @ v \<and> c # u \<in> L \<and> v \<in> star L"
  using assms
proof (induction arbitrary: w rule: star.induct)
  case star_nil
  then show ?case by simp
next
  case (star_app u v)
  show ?case
  proof (cases u)
    case Nil
    with star_app show ?thesis by simp
  next
    case (Cons a u')
    with star_app.prems have "a = c" and "w = u' @ v" by simp_all
    with Cons star_app.hyps show ?thesis by blast
  qed
qed

lemma lang_Seq_cons:
  "c # w \<in> lang (Seq r s) \<longleftrightarrow>
     (\<exists>u v. w = u @ v \<and> c # u \<in> lang r \<and> v \<in> lang s) \<or> ([] \<in> lang r \<and> c # w \<in> lang s)"
proof
  assume "c # w \<in> lang (Seq r s)"
  then obtain u v where uv: "c # w = u @ v" "u \<in> lang r" "v \<in> lang s" by auto
  show "(\<exists>u v. w = u @ v \<and> c # u \<in> lang r \<and> v \<in> lang s) \<or> ([] \<in> lang r \<and> c # w \<in> lang s)"
  proof (cases u)
    case Nil
    with uv show ?thesis by simp
  next
    case (Cons a u')
    with uv have "a = c" "w = u' @ v" by simp_all
    with Cons uv show ?thesis by blast
  qed
next
  assume "(\<exists>u v. w = u @ v \<and> c # u \<in> lang r \<and> v \<in> lang s) \<or> ([] \<in> lang r \<and> c # w \<in> lang s)"
  then show "c # w \<in> lang (Seq r s)"
  proof
    assume "\<exists>u v. w = u @ v \<and> c # u \<in> lang r \<and> v \<in> lang s"
    then obtain u v where "w = u @ v" "c # u \<in> lang r" "v \<in> lang s" by blast
    then have "c # w = (c # u) @ v" by simp
    with \<open>c # u \<in> lang r\<close> \<open>v \<in> lang s\<close> show ?thesis
      unfolding lang.simps by blast
  next
    assume "[] \<in> lang r \<and> c # w \<in> lang s"
    then have "c # w = [] @ (c # w)" "[] \<in> lang r" "c # w \<in> lang s" by simp_all
    then show ?thesis unfolding lang.simps by blast
  qed
qed

lemma lang_Star_cons:
  "c # w \<in> star L \<longleftrightarrow> (\<exists>u v. w = u @ v \<and> c # u \<in> L \<and> v \<in> star L)"
proof
  assume "c # w \<in> star L"
  from star_cons_split [OF this refl]
  show "\<exists>u v. w = u @ v \<and> c # u \<in> L \<and> v \<in> star L" .
next
  assume "\<exists>u v. w = u @ v \<and> c # u \<in> L \<and> v \<in> star L"
  then obtain u v where "w = u @ v" "c # u \<in> L" "v \<in> star L" by blast
  then have "(c # u) @ v \<in> star L" by (blast intro: star.star_app)
  with \<open>w = u @ v\<close> show "c # w \<in> star L" by simp
qed

lemma deriv_lang: "w \<in> lang (deriv c r) \<longleftrightarrow> c # w \<in> lang r"
proof (induction r arbitrary: w)
  case Zero
  show ?case by simp
next
  case One
  show ?case by simp
next
  case (Atom P)
  show ?case by simp
next
  case (Alt r s)
  then show ?case by simp
next
  case (Seq r s)
  have "w \<in> lang (deriv c (Seq r s)) \<longleftrightarrow>
        (\<exists>u v. w = u @ v \<and> u \<in> lang (deriv c r) \<and> v \<in> lang s) \<or> (nullable r \<and> w \<in> lang (deriv c s))"
    by auto
  also have "\<dots> \<longleftrightarrow> (\<exists>u v. w = u @ v \<and> c # u \<in> lang r \<and> v \<in> lang s) \<or> ([] \<in> lang r \<and> c # w \<in> lang s)"
    by (simp add: Seq nullable_lang)
  finally show ?case by (simp only: lang_Seq_cons)
next
  case (Star r)
  have "w \<in> lang (deriv c (Star r)) \<longleftrightarrow> (\<exists>u v. w = u @ v \<and> u \<in> lang (deriv c r) \<and> v \<in> star (lang r))"
    by auto
  also have "\<dots> \<longleftrightarrow> (\<exists>u v. w = u @ v \<and> c # u \<in> lang r \<and> v \<in> star (lang r))"
    by (simp add: Star)
  finally show ?case by (simp only: lang_Star_cons lang.simps)
qed

lemma rmatch_lang: "rmatch r w \<longleftrightarrow> w \<in> lang r"
  by (induction w arbitrary: r) (simp_all add: nullable_lang deriv_lang)


section \<open>The qualified-name pattern\<close>

lemma lang_chr: "w \<in> lang (chr c) \<longleftrightarrow> w = [c]"
  by (auto simp: chr_def)

lemma lang_lits: "w \<in> lang (lits s) \<longleftrightarrow> w = s"
proof (induction s arbitrary: w)
  case Nil
  show ?case by simp
next
  case (Cons c s)
  have "w \<in> lang (lits (c # s)) \<longleftrightarrow> (\<exists>u v. w = u @ v \<and> u = [c] \<and> v = s)"
    by (simp add: lang_chr Cons)
  then show ?case by auto
qed

lemma lang_Seq: "w \<in> lang (Seq r s) \<longleftrightarrow> (\<exists>u v. w = u @ v \<and> u \<in> lang r \<and> v \<in> lang s)"
  by auto

lemma lang_SeqI: "u \<in> lang r \<Longrightarrow> v \<in> lang s \<Longrightarrow> u @ v \<in> lang (Seq r s)"
  by auto

lemma lang_Seq_Atom: "w \<in> lang (Seq (Atom P) r) \<longleftrightarrow> (\<exists>c v. w = c # v \<and> P c \<and> v \<in> lang r)"
proof
  assume "w \<in> lang (Seq (Atom P) r)"
  then obtain u v where "w = u @ v" "u \<in> lang (Atom P)" "v \<in> lang r"
    unfolding lang_Seq by blast
  then show "\<exists>c v. w = c # v \<and> P c \<and> v \<in> lang r" by auto
next
  assume "\<exists>c v. w = c # v \<and> P c \<and> v \<in> lang r"
  then obtain c v where "w = [c] @ v" "[c] \<in> lang (Atom P)" "v \<in> lang r" by auto
  then show "w \<in> lang (Seq (Atom P) r)" unfolding lang_Seq by blast
qed

lemma lang_rep_atom: "w \<in> lang (rep n (Atom P)) \<longleftrightarrow> length w = n \<and> list_all P w"
proof (induction n arbitrary: w)
  case 0
  show ?case by auto
next
  case (Suc n)
  have "w \<in> lang (rep (Suc n) (Atom P)) \<longleftrightarrow>
        (\<exists>c v. w = c # v \<and> P c \<and> length v = n \<and> list_all P v)"
    unfolding rep.simps lang_Seq_Atom by (simp only: Suc)
  also have "\<dots> \<longleftrightarrow> length w = Suc n \<and> list_all P w"
    by (cases w) auto
  finally show ?case .
qed

lemma star_atom_all: "w \<in> star {[c] | c. P c} \<Longrightarrow> list_all P w"
  by (induction rule: star.induct) auto

lemma all_star_atom: "list_all P w \<Longrightarrow> w \<in> star {[c] | c. P c}"
proof (induction w)
  case Nil
  show ?case by (rule star.star_nil)
next
  case (Cons c w)
  then have "[c] \<in> {[c] | c. P c}" and "w \<in> star {[c] | c. P c}" by auto
  then have "[c] @ w \<in> star {[c] | c. P c}" by (rule star.star_app)
  then show ?case by simp
qed

lemma lang_star_atom: "w \<in> lang (Star (Atom P)) \<longleftrightarrow> list_all P w"
  using star_atom_all [of w P] all_star_atom [of P w] by auto

lemma lang_plus_atom: "w \<in> lang (Plus (Atom P)) \<longleftrightarrow> w \<noteq> [] \<and> list_all P w"
proof -
  have "w \<in> lang (Plus (Atom P)) \<longleftrightarrow> (\<exists>c v. w = c # v \<and> P c \<and> v \<in> lang (Star (Atom P)))"
    unfolding Plus_def by (rule lang_Seq_Atom)
  also have "\<dots> \<longleftrightarrow> (\<exists>c v. w = c # v \<and> P c \<and> list_all P v)"
    by (simp only: lang_star_atom)
  also have "\<dots> \<longleftrightarrow> w \<noteq> [] \<and> list_all P w"
    by (cases w) auto
  finally show ?thesis .
qed

lemma iqn_wellformed_lang:
  assumes "iqn_wellformed w"
  shows "w \<in> lang iqnPattern"
proof -
  from assms obtain y m a n where
    w: "w = ''iqn.'' @ y @ ''-'' @ m @ ''.'' @ a @ '':'' @ n"
    and parts: "length y = 4" "list_all digit y" "length m = 2" "list_all digit m"
      "a \<noteq> []" "list_all authority_char a" "n \<noteq> []" "list_all name_char n"
    unfolding iqn_wellformed_def by blast
  have "''iqn'' @ ([CHR ''.''] @ (y @ ([CHR ''-''] @ (m @ ([CHR ''.''] @ (a @ ([CHR '':''] @ n)))))))
          \<in> lang iqnPattern"
    unfolding iqnPattern_def
    by (intro lang_SeqI) (simp_all only: lang_chr lang_lits lang_rep_atom lang_plus_atom parts simp_thms)
  then show ?thesis by (simp add: w)
qed

lemma lang_iqn_wellformed:
  assumes "w \<in> lang iqnPattern"
  shows "iqn_wellformed w"
  using assms unfolding iqnPattern_def iqn_wellformed_def
  by (simp only: lang_Seq lang_chr lang_lits lang_rep_atom lang_plus_atom) auto

lemma lang_iqnPattern: "w \<in> lang iqnPattern \<longleftrightarrow> iqn_wellformed w"
  using iqn_wellformed_lang lang_iqn_wellformed by blast

lemma validateIQN_None: "validateIQN q = None \<longleftrightarrow> iqn_wellformed q \<and> length q \<le> 223"
proof -
  have "iqn_wellformed q \<Longrightarrow> q \<noteq> []"
    by (auto simp: iqn_wellformed_def)
  then show ?thesis
    by (auto simp: validateIQN_def rmatch_lang lang_iqnPattern)
qed


subsection \<open>validateIQN against the spec's qualified names\<close>

lemma iqn_wellformed_prefix: "iqn_wellformed q \<Longrightarrow> take 4 q = ''iqn.''"
  by (auto simp: iqn_wellformed_def)

lemma iqn_wellformed_colon: "iqn_wellformed q \<Longrightarrow> CHR '':'' \<in> set q"
  by (auto simp: iqn_wellformed_def)

lemma iqn_wellformed_year: "\<not> iqn_wellformed (''iqn.'' @ [d1, d2] @ ''-'' @ r)"
proof
  assume "iqn_wellformed (''iqn.'' @ [d1, d2] @ ''-'' @ r)"
  then obtain y t where eq: "''iqn.'' @ [d1, d2] @ ''-'' @ r = ''iqn.'' @ y @ t"
    and y: "length y = 4" "list_all digit y"
    unfolding iqn_wellformed_def by blast
  from y(1) obtain y1 y2 y3 y4 where "y = [y1, y2, y3, y4]"
    by (auto simp: length_Suc_conv eval_nat_numeral)
  with eq y(2) have "digit CHR ''-''" by simp
  then show False by (simp add: digit_def)
qed

lemma validateIQN_test_cases:
  "validateIQN ''iqn.2023-01.com.example:storage.target01'' = None"
  "validateIQN ''iqn.2024-12.org.test-domain:storage.lun_01.target-02'' = None"
  "validateIQN '''' = Some IQNEmpty"
  "validateIQN ''2023-01.com.example:storage.target01'' = Some IQNFormat"
  "validateIQN ''iqn.23-01.com.example:storage.target01'' = Some IQNFormat"
  "validateIQN ''iqn.2023-01.com.example.storage.target01'' = Some IQNFormat"
  by (simp_all add: validateIQN_def iqnPattern_def chr_def Plus_def digit_def
      authority_char_def name_char_def alnum_def eval_nat_numeral)

text \<open>
  C9. \<^verbatim>\<open>validateIQN\<close> accepts exactly the qualified names of the form
  \<^verbatim>\<open>iqn.<4-digit year>-<2-digit month>.<authority>:<name>\<close> that are at most 223 characters
  long. Every deviation is rejected: the empty string, a text that does not start with
  \<^verbatim>\<open>iqn.\<close>, a two-digit year, a text without a colon, and a text longer than 223.
\<close>

theorem validateIQN_accepts_exactly_wellformed:
  "(validateIQN q = None \<longleftrightarrow> iqn_wellformed q \<and> length q \<le> 223)
   \<and> validateIQN [] \<noteq> None
   \<and> (take 4 q \<noteq> ''iqn.'' \<longrightarrow> validateIQN q \<noteq> None)
   \<and> validateIQN (''iqn.'' @ [d1, d2] @ ''-'' @ r) \<noteq> None
   \<and> (CHR '':'' \<notin> set q \<longrightarrow> validateIQN q \<noteq> None)
   \<and> (length q > 223 \<longrightarrow> validateIQN q \<noteq> None)"
proof (intro conjI impI)
  show "validateIQN q = None \<longleftrightarrow> iqn_wellformed q \<and> length q \<le> 223"
    by (rule validateIQN_None)
  show "validateIQN [] \<noteq> None"
    by (simp add: validateIQN_def)
  show "validateIQN q \<noteq> None" if "take 4 q \<noteq> ''iqn.''"
    using that iqn_wellformed_prefix [of q] by (simp only: validateIQN_None) blast
  show "validateIQN (''iqn.'' @ [d1, d2] @ ''-'' @ r) \<noteq> None"
    using iqn_wellformed_year [of d1 d2 r] by (simp only: validateIQN_None) blast
  show "validateIQN q \<noteq> None" if "CHR '':'' \<notin> set q"
    using that iqn_wellformed_colon [of q] by (simp only: validateIQN_None) blast
  show "validateIQN q \<noteq> None" if "length q > 223"
    using that by (simp add: validateIQN_None)
qed

theorem validateIQN_accepts_exactly_wellformed_witness:
  "validateIQN ''iqn.2023-01.com.example:storage.target01'' = None
   \<and> validateIQN ''2023-01.com.example:storage.target01'' \<noteq> None
   \<and> validateIQN ''iqn.2023-01.com.example.storage.target01'' \<noteq> None
   \<and> validateIQN (''iqn.2023-01.com.example:'' @ replicate 250 CHR ''a'') \<noteq> None"
proof -
  let ?ok = "''iqn.2023-01.com.example:storage.target01''"
  have "?ok = ''iqn.'' @ ''2023'' @ ''-'' @ ''01'' @ ''.'' @ ''com.example'' @ '':'' @ ''storage.target01''"
    by simp
  moreover have "list_all digit ''2023''" "list_all digit ''01''"
    "list_all authority_char ''com.example''" "list_all name_char ''storage.target01''"
    by (simp_all add: digit_def authority_char_def name_char_def alnum_def)
  ultimately have wf: "iqn_wellformed ?ok \<and> length ?ok \<le> 223"
    unfolding iqn_wellformed_def
    by (intro conjI exI [of _ "''2023''"] exI [of _ "''01''"] exI [of _ "''com.example''"]
        exI [of _ "''storage.target01''"]) simp_all
  have p: "take 4 ''2023-01.com.example:storage.target01'' \<noteq> ''iqn.''"
    by simp
  have c: "CHR '':'' \<notin> set ''iqn.2023-01.com.example.storage.target01''"
    by simp
  have l: "length (''iqn.2023-01.com.example:'' @ replicate 250 CHR ''a'') > 223"
    by simp
  show ?thesis
    using wf p c l
      validateIQN_accepts_exactly_wellformed [of ?ok]
      validateIQN_accepts_exactly_wellformed [of "''2023-01.com.example:storage.target01''"]
      validateIQN_accepts_exactly_wellformed [of "''iqn.2023-01.com.example.storage.target01''"]
      validateIQN_accepts_exactly_wellformed [of "''iqn.2023-01.com.example:'' @ replicate 250 CHR ''a''"]
    by blast
qed


section \<open>The creation path\<close>

lemma validateIQN_example: "validateIQN ''iqn.2023-01.com.example:t1'' = None"
proof -
  have "''iqn.2023-01.com.example:t1''
          = ''iqn.'' @ ''2023'' @ ''-'' @ ''01'' @ ''.'' @ ''com.example'' @ '':'' @ ''t1''"
    by simp
  moreover have "list_all digit ''2023''" "list_all digit ''01''"
    "list_all authority_char ''com.example''" "list_all name_char ''t1''"
    by (simp_all add: digit_def authority_char_def name_char_def alnum_def)
  ultimately have "iqn_wellformed ''iqn.2023-01.com.example:t1''"
    unfolding iqn_wellformed_def
    by (intro exI [of _ "''2023''"] exI [of _ "''01''"] exI [of _ "''com.example''"]
        exI [of _ "''t1''"] conjI) simp_all
  then show ?thesis by (simp add: validateIQN_None)
qed

lemma validateFields_example: "validateFields lib_reachable (create_input l) = None"
  by (simp add: validateFields_def create_input_def lib_reachable_def validateTargetAddress_def
      validatePortalAddress_def validateAuthParams_def validateIQN_example)

lemma TrimSpace_examples:
  "TrimSpace ''192.168.1.100'' = ''192.168.1.100''"
  "TrimSpace ''iqn.2023-01.com.example:t1'' = ''iqn.2023-01.com.example:t1''"
  "TrimSpace ''192.168.1.100:3260'' = ''192.168.1.100:3260''"
  "TrimSpace [] = []"
  "TrimSpace ''newuser'' = ''newuser''"
  "TrimSpace ''newpass'' = ''newpass''"
  by (simp_all add: TrimSpace_def isSpace_def)

text \<open>
  What a successful validation stores: the LUN number of the input, with a negative number
  replaced by 0. No step compares it with 255.
\<close>

lemma ValidateCreateData_stored_lun:
  assumes "ValidateCreateData lib ps d input = (input', None)"
  shows "lun_id (StorageConf input') = (if IscsiLunId input < 0 then 0 else IscsiLunId input)"
  using assms
  by (auto simp: ValidateCreateData_def Let_def defaultLunId_def
      split: option.splits if_splits)

text \<open>
  C1. The claim is that every LUN number above 255 is rejected, so that the stored
  \<^verbatim>\<open>lun_id\<close> lies in [0, 255]. The input with LUN number 256, valid fields, no earlier
  record and a reachable portal is accepted, and 256 is stored.
\<close>

theorem ValidateCreateData_accepts_lun_256:
  "ValidateCreateData lib_reachable ps_ok db_empty (create_input 256)
     = ((create_input 256)\<lparr>StorageConf := stored_conf 256\<rparr>, None)"
proof -
  have "checkDuplicateStorage ps_ok db_empty (create_input 256) = None"
    by (simp add: checkDuplicateStorage_def FetchModelObjects_def ps_ok_def db_empty_def)
  moreover have "testIscsiConnection lib_reachable (create_input 256) = None"
    by (simp add: testIscsiConnection_def lib_reachable_def create_input_def)
  moreover have "(create_input 256)\<lparr>StorageConf := NewDict\<rparr> = create_input 256"
    by (simp add: create_input_def)
  moreover have "defaultLunId (create_input 256) = create_input 256"
    by (simp add: defaultLunId_def create_input_def)
  ultimately show ?thesis
    by (simp add: ValidateCreateData_def validateFields_example)
      (simp add: create_input_def stored_conf_def NewDict_def TrimSpace_examples)
qed


subsection \<open>Duplicate detection\<close>

lemma duplicate_scan_cases:
  "duplicate_scan input xs = None
   \<or> (\<exists>t q p l. duplicate_scan input xs = Some (DuplicateResourceError t q p l))"
  by (induction xs) (auto simp: Let_def)

lemma duplicate_scan_None:
  "duplicate_scan input xs = None \<longleftrightarrow>
     (\<forall>s \<in> set xs. target (Conf s) \<noteq> IscsiTarget input \<or> iqn (Conf s) \<noteq> IscsiIqn input
          \<or> portal (Conf s) \<noteq> IscsiPortal input \<or> lun_id (Conf s) \<noteq> IscsiLunId input)"
  by (induction xs) (auto simp: Let_def)

lemma is_duplicate_scan:
  "is_duplicate_error (duplicate_scan input xs) \<longleftrightarrow> duplicate_scan input xs \<noteq> None"
  using duplicate_scan_cases [of input xs]
  by (auto simp: is_duplicate_error_def)

lemma validateFields_StorageConf:
  "validateFields lib (input\<lparr>StorageConf := c\<rparr>) = validateFields lib input"
  by (simp add: validateFields_def cong: option.case_cong if_cong)

lemma ValidateCreateData_error:
  "snd (ValidateCreateData lib ps d input) =
     (case validateFields lib input of
        Some e \<Rightarrow> Some e
      | None \<Rightarrow>
          (case checkDuplicateStorage ps d (defaultLunId (input\<lparr>StorageConf := NewDict\<rparr>)) of
             Some e \<Rightarrow> Some e
           | None \<Rightarrow>
               (case testIscsiConnection lib (defaultLunId (input\<lparr>StorageConf := NewDict\<rparr>)) of
                  Some e \<Rightarrow> Some (BadRequestError ''iSCSI connection test failed'' e)
                | None \<Rightarrow> None)))"
  by (simp add: ValidateCreateData_def Let_def validateFields_StorageConf split: option.splits)

lemma validateFields_not_duplicate:
  "validateFields lib input = Some e \<Longrightarrow> \<not> is_duplicate_error (Some e)"
  by (auto simp: validateFields_def is_duplicate_error_def split: if_splits option.splits)

lemma defaultLunId_fields:
  "IscsiTarget (defaultLunId input) = IscsiTarget input"
  "IscsiIqn (defaultLunId input) = IscsiIqn input"
  "IscsiPortal (defaultLunId input) = IscsiPortal input"
  "IscsiLunId (defaultLunId input) = (if IscsiLunId input < 0 then 0 else IscsiLunId input)"
  by (simp_all add: defaultLunId_def)

text \<open>
  C5. \<^verbatim>\<open>ValidateCreateData\<close> ends with the duplicate-resource error exactly when the
  input reaches the duplicate check (its fields pass the format checks and the records can
  be fetched) and some iSCSI record stores the same (target, iqn, portal, lunId), the LUN
  number of the input taken after its default is applied. An input that differs from
  every fetched record in at least one of the four fields passes
  \<^verbatim>\<open>checkDuplicateStorage\<close>.
\<close>

theorem ValidateCreateData_duplicate_iff:
  "(is_duplicate_error (snd (ValidateCreateData lib ps d input)) \<longleftrightarrow>
      validateFields lib input = None \<and> fetch_ok ps
      \<and> (\<exists>s \<in> set (storages d). StorageType s = STORAGE_ISCSI
            \<and> target (Conf s) = IscsiTarget input \<and> iqn (Conf s) = IscsiIqn input
            \<and> portal (Conf s) = IscsiPortal input
            \<and> lun_id (Conf s) = (if IscsiLunId input < 0 then 0 else IscsiLunId input)))
   \<and> (fetch_ok ps
        \<and> (\<forall>s \<in> set (storages d). StorageType s = STORAGE_ISCSI \<longrightarrow>
              target (Conf s) \<noteq> IscsiTarget input \<or> iqn (Conf s) \<noteq> IscsiIqn input
              \<or> portal (Conf s) \<noteq> IscsiPortal input \<or> lun_id (Conf s) \<noteq> IscsiLunId input)
      \<longrightarrow> checkDuplicateStorage ps d input = None)"
proof (intro conjI impI)
  let ?input = "defaultLunId (input\<lparr>StorageConf := NewDict\<rparr>)"
  let ?rows = "filter (\<lambda>s. StorageType s = STORAGE_ISCSI) (storages d)"
  let ?same = "\<exists>s \<in> set (storages d). StorageType s = STORAGE_ISCSI
            \<and> target (Conf s) = IscsiTarget input \<and> iqn (Conf s) = IscsiIqn input
            \<and> portal (Conf s) = IscsiPortal input
            \<and> lun_id (Conf s) = (if IscsiLunId input < 0 then 0 else IscsiLunId input)"
  have scan: "duplicate_scan ?input ?rows \<noteq> None \<longleftrightarrow> ?same"
    unfolding duplicate_scan_None by (simp add: defaultLunId_fields) blast
  show "is_duplicate_error (snd (ValidateCreateData lib ps d input)) \<longleftrightarrow>
      validateFields lib input = None \<and> fetch_ok ps \<and> ?same"
  proof (cases "validateFields lib input")
    case (Some e)
    with validateFields_not_duplicate [OF Some] show ?thesis
      by (simp add: ValidateCreateData_error)
  next
    case None
    show ?thesis
    proof (cases "fetch_ok ps")
      case False
      with None show ?thesis
        by (simp add: ValidateCreateData_error checkDuplicateStorage_def FetchModelObjects_def
            is_duplicate_error_def)
    next
      case True
      show ?thesis
      proof (cases "duplicate_scan ?input ?rows")
        case dup: (Some e)
        with scan have "?same" by blast
        moreover from dup is_duplicate_scan [of ?input ?rows]
        have "is_duplicate_error (Some e)" by simp
        with None True dup have "is_duplicate_error (snd (ValidateCreateData lib ps d input))"
          by (simp add: ValidateCreateData_error checkDuplicateStorage_def FetchModelObjects_def)
        ultimately show ?thesis using None True by blast
      next
        case nodup: None
        with scan have "\<not> ?same" by blast
        moreover have "\<not> is_duplicate_error (snd (ValidateCreateData lib ps d input))"
          using None True nodup
          by (simp add: ValidateCreateData_error checkDuplicateStorage_def FetchModelObjects_def
              is_duplicate_error_def split: option.splits)
        ultimately show ?thesis by blast
      qed
    qed
  qed
next
  assume a: "fetch_ok ps
        \<and> (\<forall>s \<in> set (storages d). StorageType s = STORAGE_ISCSI \<longrightarrow>
              target (Conf s) \<noteq> IscsiTarget input \<or> iqn (Conf s) \<noteq> IscsiIqn input
              \<or> portal (Conf s) \<noteq> IscsiPortal input \<or> lun_id (Conf s) \<noteq> IscsiLunId input)"
  then have "duplicate_scan input (filter (\<lambda>s. StorageType s = STORAGE_ISCSI) (storages d)) = None"
    unfolding duplicate_scan_None by simp
  with a show "checkDuplicateStorage ps d input = None"
    by (simp add: checkDuplicateStorage_def FetchModelObjects_def)
qed

theorem ValidateCreateData_duplicate_iff_witness:
  "is_duplicate_error (snd (ValidateCreateData lib_reachable ps_ok db_one (create_input 0)))
   \<and> is_duplicate_error (snd (ValidateCreateData lib_reachable ps_ok db_one (create_input (- 1))))
   \<and> \<not> is_duplicate_error (snd (ValidateCreateData lib_reachable ps_ok db_one (create_input 1)))
   \<and> checkDuplicateStorage ps_ok db_one (create_input 1) = None"
proof -
  have rows: "storages db_one =
      [\<lparr>Id' = ''s1'', Name = ''first'', Status = ''online'', StoragecacheId = ''cache-0'',
        StorageType = ''iscsi'', Conf = stored_conf 0\<rparr>]"
    by (simp add: db_one_def)
  have ok: "fetch_ok ps_ok" by (simp add: ps_ok_def)
  show ?thesis
    using ValidateCreateData_duplicate_iff [of lib_reachable ps_ok db_one "create_input 0"]
      ValidateCreateData_duplicate_iff [of lib_reachable ps_ok db_one "create_input (- 1)"]
      ValidateCreateData_duplicate_iff [of lib_reachable ps_ok db_one "create_input 1"]
    by (simp add: validateFields_example ok rows STORAGE_ISCSI_def)
      (simp add: create_input_def stored_conf_def)
qed


section \<open>The update path\<close>

lemma validateAuthParams_both:
  assumes "validateAuthParams u pw = None" and "length u > 0 \<or> length pw > 0"
  shows "length u > 0 \<and> length pw > 0"
  using assms by (auto simp: validateAuthParams_def split: if_splits)

lemma testIscsiConnectionUpdate_blob:
  assumes "target (UpdStorageConf a) = target (UpdStorageConf b)"
    and "iqn (UpdStorageConf a) = iqn (UpdStorageConf b)"
    and "portal (UpdStorageConf a) = portal (UpdStorageConf b)"
  shows "testIscsiConnectionUpdate lib a = testIscsiConnectionUpdate lib b"
  using assms by (simp add: testIscsiConnectionUpdate_def)

lemma setCredentials_both:
  assumes "length (UpdIscsiUsername input) > 0" and "length (UpdIscsiPassword input) > 0"
  shows "setCredentials input =
     input\<lparr>UpdStorageConf := (UpdStorageConf input)
               \<lparr>username := TrimSpace (UpdIscsiUsername input),
                password := TrimSpace (UpdIscsiPassword input)\<rparr>,
           UpdateStorageConf := True\<rparr>"
  using assms by (simp add: setCredentials_def)

text \<open>
  C2, as the spec states it, fails. The input of the repository's test
  \<^emph>\<open>valid authentication update\<close> has both credentials, a complete stored configuration,
  and a portal that cannot be reached. The call returns the bad-request error, and the
  input it returns with the error holds the new credentials and the set flag.
\<close>

theorem ValidateUpdateData_failed_probe_keeps_credentials:
  "snd (ValidateUpdateData lib_unreachable base_accept update_input)
     = Some (BadRequestError ''iSCSI connection test failed with updated configuration''
         (ConnectFailed ''192.168.1.100:3260''))
   \<and> username (UpdStorageConf (fst (ValidateUpdateData lib_unreachable base_accept update_input)))
       = ''newuser''
   \<and> password (UpdStorageConf (fst (ValidateUpdateData lib_unreachable base_accept update_input)))
       = ''newpass''
   \<and> UpdateStorageConf (fst (ValidateUpdateData lib_unreachable base_accept update_input))
   \<and> username (UpdStorageConf update_input) = []
   \<and> \<not> UpdateStorageConf update_input"
proof -
  have auth: "validateAuthParams ''newuser'' ''newpass'' = None"
    by (simp add: validateAuthParams_def ContainsAny_def)
  have set: "setCredentials update_input =
      update_input\<lparr>UpdStorageConf := (stored_conf 0)\<lparr>username := ''newuser'', password := ''newpass''\<rparr>,
                   UpdateStorageConf := True\<rparr>"
    by (simp add: setCredentials_def update_input_def TrimSpace_examples)
  have probe: "testIscsiConnectionUpdate lib_unreachable (setCredentials update_input)
      = Some (ConnectFailed ''192.168.1.100:3260'')"
    unfolding set
    by (simp add: testIscsiConnectionUpdate_def stored_conf_def lib_unreachable_def
        lib_reachable_def)
  have "ValidateUpdateData lib_unreachable base_accept update_input =
      (setCredentials update_input,
       Some (BadRequestError ''iSCSI connection test failed with updated configuration''
         (ConnectFailed ''192.168.1.100:3260'')))"
    using auth probe by (simp add: ValidateUpdateData_def update_input_def)
  then show ?thesis
    by (simp add: set) (simp add: update_input_def stored_conf_def)
qed

text \<open>
  C2, amended. On the credential-update path, once the pairing, length and whitespace
  rules pass, both credentials are written, trimmed, into the configuration blob and the
  configuration-changed flag is set \<^emph>\<open>before\<close> the connectivity probe runs. When the probe
  fails, the bad-request error is returned with that input: the new credentials and the
  flag are in it. When the probe succeeds, that input goes to the base update validator.
\<close>

theorem ValidateUpdateData_writes_before_probe:
  assumes "length (UpdIscsiUsername input) > 0 \<or> length (UpdIscsiPassword input) > 0"
    and "validateAuthParams (UpdIscsiUsername input) (UpdIscsiPassword input) = None"
    and "input' = input\<lparr>UpdStorageConf := (UpdStorageConf input)
                     \<lparr>username := TrimSpace (UpdIscsiUsername input),
                      password := TrimSpace (UpdIscsiPassword input)\<rparr>,
                   UpdateStorageConf := True\<rparr>"
  shows "ValidateUpdateData lib base input =
     (case testIscsiConnectionUpdate lib input of
        Some e \<Rightarrow>
          (input',
           Some (BadRequestError ''iSCSI connection test failed with updated configuration'' e))
      | None \<Rightarrow> base input')"
proof -
  from validateAuthParams_both [OF assms(2,1)]
  have both: "length (UpdIscsiUsername input) > 0" "length (UpdIscsiPassword input) > 0"
    by simp_all
  have set: "setCredentials input = input'"
    using setCredentials_both [OF both] assms(3) by simp
  have "testIscsiConnectionUpdate lib input' = testIscsiConnectionUpdate lib input"
    by (rule testIscsiConnectionUpdate_blob) (simp_all add: assms(3))
  with assms(1,2) set show ?thesis
    by (simp add: ValidateUpdateData_def Let_def split: option.splits)
qed

theorem ValidateUpdateData_writes_before_probe_witness:
  "ValidateUpdateData lib_reachable base_accept update_input =
     (update_input\<lparr>UpdStorageConf := (stored_conf 0)\<lparr>username := ''newuser'', password := ''newpass''\<rparr>,
                   UpdateStorageConf := True\<rparr>, None)"
proof -
  have auth: "validateAuthParams (UpdIscsiUsername update_input) (UpdIscsiPassword update_input) = None"
    by (simp add: validateAuthParams_def ContainsAny_def update_input_def)
  have some: "length (UpdIscsiUsername update_input) > 0 \<or> length (UpdIscsiPassword update_input) > 0"
    by (simp add: update_input_def)
  have probe: "testIscsiConnectionUpdate lib_reachable update_input = None"
    by (simp add: testIscsiConnectionUpdate_def update_input_def stored_conf_def lib_reachable_def)
  show ?thesis
    using ValidateUpdateData_writes_before_probe [OF some auth refl, of lib_reachable base_accept]
    by (simp add: probe base_accept_def) (simp add: update_input_def TrimSpace_examples)
qed


section \<open>Cache reconciliation\<close>

lemma find_app:
  "find P (xs @ ys) = (case find P xs of Some x \<Rightarrow> Some x | None \<Rightarrow> find P ys)"
  by (induction xs) auto

lemma find_sibling_app:
  "find_sibling s (xs @ ys) =
     (case find_sibling s xs of Some x \<Rightarrow> Some x | None \<Rightarrow> find_sibling s ys)"
  by (induction xs) auto

lemma find_sibling_Some:
  "find_sibling s xs = Some x \<Longrightarrow>
     x \<in> set xs \<and> Id' x \<noteq> Id' s \<and> StoragecacheId x \<noteq> []
     \<and> target (Conf s) = target (Conf x) \<and> iqn (Conf s) = iqn (Conf x)
     \<and> portal (Conf s) = portal (Conf x)"
  by (induction xs) (auto split: if_splits)

lemma find_sibling_None:
  "find_sibling s xs = None \<longleftrightarrow>
     (\<forall>x \<in> set xs. Id' x = Id' s \<or> StoragecacheId x = []
        \<or> target (Conf s) \<noteq> target (Conf x) \<or> iqn (Conf s) \<noteq> iqn (Conf x)
        \<or> portal (Conf s) \<noteq> portal (Conf x))"
  by (induction xs) auto

lemma find_sibling_cong:
  assumes "Id' a \<notin> Id' ` set xs" and "Id' b \<notin> Id' ` set xs"
    and "target (Conf a) = target (Conf b)" and "iqn (Conf a) = iqn (Conf b)"
    and "portal (Conf a) = portal (Conf b)"
  shows "find_sibling a xs = find_sibling b xs"
  using assms by (induction xs) auto

lemma iscsi_rows_app: "iscsi_rows (xs @ ys) = iscsi_rows xs @ iscsi_rows ys"
  by (simp add: iscsi_rows_def)

lemma iscsi_rows_subset: "set (iscsi_rows xs) \<subseteq> set xs"
  by (auto simp: iscsi_rows_def)

lemma lookup_db_Update:
  assumes "update_ok ps" and "Id' (f s) = Id' s" and "Id' s \<in> Id' ` set (storages d)"
  shows "lookup_storage (db_Update ps d s f) (Id' s) = Some (f s)"
proof -
  have "Id' s \<in> Id' ` set xs \<Longrightarrow>
      find (\<lambda>r. Id' r = Id' s) (map (\<lambda>r. if Id' r = Id' s then f s else r) xs) = Some (f s)" for xs
    using assms(2) by (induction xs) auto
  with assms show ?thesis
    by (simp add: lookup_storage_def db_Update_def)
qed

lemma PostCreate_online:
  assumes "fetch_ok ps" and "insert_ok ps" and "update_ok ps"
    and "Id' s \<in> Id' ` set (storages d)"
  shows "status_of (PostCreate ps cachedir d s) (Id' s) = Some STORAGE_ONLINE"
proof (cases "length (StoragecacheId s) > 0")
  case True
  then show ?thesis
    using assms by (simp add: PostCreate_def status_of_def lookup_db_Update)
next
  case False
  show ?thesis
  proof (cases "find_sibling s (iscsi_rows (storages d))")
    case (Some x)
    with False assms show ?thesis
      by (simp add: PostCreate_def FetchModelObjects_def iscsi_rows_def [symmetric]
          status_of_def lookup_db_Update)
  next
    case None
    with False assms show ?thesis
      by (simp add: PostCreate_def FetchModelObjects_def iscsi_rows_def [symmetric]
          db_Insert_def Let_def status_of_def lookup_db_Update)
  qed
qed

text \<open>The rows after a successful reconciliation of a record without a cache reference.\<close>

lemma PostCreate_rows:
  assumes "fetch_ok ps" and "insert_ok ps" and "update_ok ps" and "StoragecacheId s = []"
  shows "storages (PostCreate ps cachedir d s) =
     map (\<lambda>r. if Id' r = Id' s
               then s\<lparr>StoragecacheId := chosen_cache ps d s, Status := STORAGE_ONLINE\<rparr>
               else r) (storages d)"
proof (cases "find_sibling s (iscsi_rows (storages d))")
  case (Some x)
  with assms show ?thesis
    by (simp add: PostCreate_def FetchModelObjects_def iscsi_rows_def [symmetric]
        chosen_cache_def db_Update_def)
next
  case None
  with assms show ?thesis
    by (simp add: PostCreate_def FetchModelObjects_def iscsi_rows_def [symmetric]
        chosen_cache_def db_Update_def db_Insert_def Let_def)
qed

lemma PostCreate_caches:
  assumes "fetch_ok ps" and "insert_ok ps" and "update_ok ps" and "StoragecacheId s = []"
    and "find_sibling s (iscsi_rows (storages d)) = None"
  shows "storagecaches (PostCreate ps cachedir d s) =
     storagecaches d @
       [\<lparr>CacheId = new_id ps, CacheName = ''iscsi-cache-'' @ Id' s,
         CachePath = cachedir, CacheExternalId = Id' s\<rparr>]"
  using assms
  by (simp add: PostCreate_def FetchModelObjects_def iscsi_rows_def [symmetric]
      db_Update_def db_Insert_def Let_def)

lemma PostCreate_created_rows:
  assumes "fetch_ok ps" and "insert_ok ps" and "update_ok ps" and "StoragecacheId s = []"
    and "Id' s \<notin> Id' ` set xs" and "storages d = xs"
  shows "storages (PostCreate ps cachedir (create_storage d s) s) =
     xs @ [s\<lparr>StoragecacheId := chosen_cache ps (create_storage d s) s,
             Status := STORAGE_ONLINE\<rparr>]"
proof -
  have "map (\<lambda>r. if Id' r = Id' s then y else r) xs = xs" for y
    using assms(5) by (induction xs) auto
  then show ?thesis
    using assms(6) by (simp add: PostCreate_rows [OF assms(1-4)] create_storage_def)
qed

lemma lookup_last:
  assumes "i \<notin> Id' ` set xs" and "Id' r = i"
  shows "find (\<lambda>x. Id' x = i) (xs @ r # ys) = Some r"
  using assms by (induction xs) auto

text \<open>
  C4. Three records are created and reconciled one after the other, in a table that holds
  none of their identifiers; every persistence operation succeeds. \<open>A\<close> and \<open>B\<close> have the
  same target, qualified name and portal (their LUN numbers are not looked at); \<open>C\<close> has
  another portal, and no earlier record with a cache has \<open>C\<close>'s target, qualified name and
  portal. Then \<open>A\<close> and \<open>B\<close> end with the same, non-empty cache reference; \<open>C\<close> is given the
  cache record inserted for it, which no record referred to before and which is not the
  cache of \<open>A\<close> and \<open>B\<close>; and each record is online after its reconciliation. In general,
  whichever branch \<open>PostCreate\<close> takes, a reconciliation whose persistence operations
  succeed leaves the record online.
\<close>

theorem PostCreate_cache_sharing:
  fixes d0 :: db and A B C :: SStorage and psA psB psC :: persistence and cachedir :: string
  defines "dA \<equiv> PostCreate psA cachedir (create_storage d0 A) A"
  defines "dB \<equiv> PostCreate psB cachedir (create_storage dA B) B"
  defines "dC \<equiv> PostCreate psC cachedir (create_storage dB C) C"
  assumes okA: "fetch_ok psA \<and> insert_ok psA \<and> update_ok psA"
    and okB: "fetch_ok psB \<and> insert_ok psB \<and> update_ok psB"
    and okC: "fetch_ok psC \<and> insert_ok psC \<and> update_ok psC"
    and ids: "Id' A \<notin> Id' ` set (storages d0) \<and> Id' B \<notin> Id' ` set (storages d0)
        \<and> Id' C \<notin> Id' ` set (storages d0) \<and> Id' A \<noteq> Id' B \<and> Id' A \<noteq> Id' C \<and> Id' B \<noteq> Id' C"
    and iscsi: "StorageType A = STORAGE_ISCSI \<and> StorageType B = STORAGE_ISCSI
        \<and> StorageType C = STORAGE_ISCSI"
    and nocache: "StoragecacheId A = [] \<and> StoragecacheId B = [] \<and> StoragecacheId C = []"
    and same: "target (Conf A) = target (Conf B) \<and> iqn (Conf A) = iqn (Conf B)
        \<and> portal (Conf A) = portal (Conf B)"
    and other: "portal (Conf C) \<noteq> portal (Conf A)"
    and alone: "\<forall>r \<in> set (storages d0). StorageType r = STORAGE_ISCSI \<and> StoragecacheId r \<noteq> []
        \<longrightarrow> target (Conf r) \<noteq> target (Conf C) \<or> iqn (Conf r) \<noteq> iqn (Conf C)
             \<or> portal (Conf r) \<noteq> portal (Conf C)"
    and newA: "new_id psA \<noteq> []"
    and newC: "new_id psC \<noteq> [] \<and> new_id psC \<notin> StoragecacheId ` set (storages dB)
        \<and> new_id psC \<notin> CacheId ` set (storagecaches dB)"
  shows "(\<exists>c. c \<noteq> [] \<and> c \<noteq> new_id psC
          \<and> cache_of dB (Id' A) = Some c \<and> cache_of dB (Id' B) = Some c
          \<and> cache_of dC (Id' A) = Some c \<and> cache_of dC (Id' B) = Some c)
     \<and> cache_of dC (Id' C) = Some (new_id psC)
     \<and> storagecaches dC = storagecaches dB @
          [\<lparr>CacheId = new_id psC, CacheName = ''iscsi-cache-'' @ Id' C,
            CachePath = cachedir, CacheExternalId = Id' C\<rparr>]
     \<and> status_of dA (Id' A) = Some STORAGE_ONLINE
     \<and> status_of dB (Id' B) = Some STORAGE_ONLINE
     \<and> status_of dC (Id' C) = Some STORAGE_ONLINE
     \<and> (\<forall>ps d s. fetch_ok ps \<and> insert_ok ps \<and> update_ok ps \<and> Id' s \<in> Id' ` set (storages d)
          \<longrightarrow> status_of (PostCreate ps cachedir d s) (Id' s) = Some STORAGE_ONLINE)"
proof -
  let ?xs = "storages d0"
  let ?F = "iscsi_rows ?xs"
  define cA where "cA = chosen_cache psA (create_storage d0 A) A"
  define A' where "A' = A\<lparr>StoragecacheId := cA, Status := STORAGE_ONLINE\<rparr>"
  define B' where "B' = B\<lparr>StoragecacheId := cA, Status := STORAGE_ONLINE\<rparr>"
  define C' where "C' = C\<lparr>StoragecacheId := new_id psC, Status := STORAGE_ONLINE\<rparr>"
  have idsF: "Id' A \<notin> Id' ` set ?F" "Id' B \<notin> Id' ` set ?F" "Id' C \<notin> Id' ` set ?F"
    using ids iscsi_rows_subset [of ?xs] by auto
  \<comment> \<open>the first reconciliation\<close>
  have rowsA: "storages dA = ?xs @ [A']"
    unfolding dA_def A'_def cA_def
    using okA nocache ids by (intro PostCreate_created_rows) simp_all
  have rowsA1: "iscsi_rows [A] = [A]"
    using iscsi by (simp add: iscsi_rows_def)
  have selfA: "find_sibling A [A] = None"
    by simp
  have "find_sibling A (?F @ [A]) = find_sibling A ?F"
    by (simp only: find_sibling_app selfA split: option.splits) simp
  then have sibA: "find_sibling A (iscsi_rows (storages (create_storage d0 A))) = find_sibling A ?F"
    by (simp add: create_storage_def iscsi_rows_app rowsA1)
  have cA: "cA = (case find_sibling A ?F of Some x \<Rightarrow> StoragecacheId x | None \<Rightarrow> new_id psA)"
    by (simp add: cA_def chosen_cache_def sibA)
  have cA_ne: "cA \<noteq> []"
    using newA find_sibling_Some [of A ?F] by (auto simp: cA split: option.splits)
  \<comment> \<open>the second reconciliation\<close>
  have rowsA_B: "storages (create_storage dA B) = ?xs @ [A', B]"
    by (simp add: create_storage_def rowsA)
  have A'_fields: "Id' A' = Id' A" "StorageType A' = STORAGE_ISCSI" "StoragecacheId A' = cA"
    "Conf A' = Conf A"
    using iscsi by (simp_all add: A'_def)
  have sibB1: "find_sibling B [A', B] = Some A'"
    using ids same cA_ne by (auto simp: A'_fields)
  have sibB2: "find_sibling B ?F = find_sibling A ?F"
    using idsF same by (intro find_sibling_cong) simp_all
  have rowsB2: "iscsi_rows [A', B] = [A', B]"
    using iscsi A'_fields(2) by (simp add: iscsi_rows_def)
  have sibB: "find_sibling B (iscsi_rows (storages (create_storage dA B)))
      = (case find_sibling A ?F of Some x \<Rightarrow> Some x | None \<Rightarrow> Some A')"
    by (simp only: rowsA_B iscsi_rows_app rowsB2 find_sibling_app sibB1 sibB2)
  have cB: "chosen_cache psB (create_storage dA B) B = cA"
    by (simp add: chosen_cache_def sibB cA A'_fields split: option.splits)
  have rowsB: "storages dB = ?xs @ [A', B']"
  proof -
    have "Id' B \<notin> Id' ` set (?xs @ [A'])"
      using ids by (auto simp: A'_fields)
    with okB nocache rowsA have "storages dB =
        (?xs @ [A']) @ [B\<lparr>StoragecacheId := chosen_cache psB (create_storage dA B) B,
                          Status := STORAGE_ONLINE\<rparr>]"
      unfolding dB_def by (intro PostCreate_created_rows) simp_all
    then show ?thesis by (simp add: cB B'_def)
  qed
  \<comment> \<open>the third reconciliation\<close>
  have B'_fields: "Id' B' = Id' B" "StorageType B' = STORAGE_ISCSI" "StoragecacheId B' = cA"
    "Conf B' = Conf B"
    using iscsi by (simp_all add: B'_def)
  have noneF: "find_sibling C ?F = None"
    unfolding find_sibling_None using alone by (auto simp: iscsi_rows_def)
  have sibC1: "find_sibling C [A', B', C] = None"
    using other same by (auto simp: A'_fields B'_fields)
  have rowsC3: "iscsi_rows [A', B', C] = [A', B', C]"
    using iscsi A'_fields(2) B'_fields(2) by (simp add: iscsi_rows_def)
  have rowsB_C: "storages (create_storage dB C) = ?xs @ [A', B', C]"
    by (simp add: create_storage_def rowsB)
  have sibC: "find_sibling C (iscsi_rows (storages (create_storage dB C))) = None"
    by (simp only: rowsB_C iscsi_rows_app rowsC3 find_sibling_app noneF sibC1 option.case)
  have cC: "chosen_cache psC (create_storage dB C) C = new_id psC"
    by (simp add: chosen_cache_def sibC)
  have rowsC: "storages dC = ?xs @ [A', B', C']"
  proof -
    have "Id' C \<notin> Id' ` set (?xs @ [A', B'])"
      using ids by (auto simp: A'_fields B'_fields)
    with okC nocache rowsB have "storages dC =
        (?xs @ [A', B']) @ [C\<lparr>StoragecacheId := chosen_cache psC (create_storage dB C) C,
                              Status := STORAGE_ONLINE\<rparr>]"
      unfolding dC_def by (intro PostCreate_created_rows) simp_all
    then show ?thesis by (simp add: cC C'_def)
  qed
  have cachesC: "storagecaches dC = storagecaches dB @
          [\<lparr>CacheId = new_id psC, CacheName = ''iscsi-cache-'' @ Id' C,
            CachePath = cachedir, CacheExternalId = Id' C\<rparr>]"
    unfolding dC_def using okC nocache sibC
    by (simp add: PostCreate_caches) (simp add: create_storage_def)
  \<comment> \<open>reading the rows back\<close>
  have C'_fields: "Id' C' = Id' C" "StoragecacheId C' = new_id psC" "Status C' = STORAGE_ONLINE"
    by (simp_all add: C'_def)
  have idB: "Id' B \<notin> Id' ` set (?xs @ [A'])" and idC: "Id' C \<notin> Id' ` set (?xs @ [A', B'])"
    using ids by (auto simp: A'_fields B'_fields)
  have lA: "lookup_storage dA (Id' A) = Some A'" "lookup_storage dB (Id' A) = Some A'"
    "lookup_storage dC (Id' A) = Some A'"
    using ids lookup_last [of "Id' A" ?xs A']
    by (simp_all add: lookup_storage_def rowsA rowsB rowsC A'_fields)
  have lB: "lookup_storage dB (Id' B) = Some B'" "lookup_storage dC (Id' B) = Some B'"
    using idB lookup_last [of "Id' B" "?xs @ [A']" B']
    by (simp_all add: lookup_storage_def rowsB rowsC B'_fields)
  have lC: "lookup_storage dC (Id' C) = Some C'"
    using idC lookup_last [of "Id' C" "?xs @ [A', B']" C' "[]"]
    by (simp add: lookup_storage_def rowsC C'_fields)
  have "cA \<in> StoragecacheId ` set (storages dB)"
    by (simp add: rowsB A'_fields)
  with newC have cA_new: "cA \<noteq> new_id psC" by blast
  have share: "\<exists>c. c \<noteq> [] \<and> c \<noteq> new_id psC
          \<and> cache_of dB (Id' A) = Some c \<and> cache_of dB (Id' B) = Some c
          \<and> cache_of dC (Id' A) = Some c \<and> cache_of dC (Id' B) = Some c"
    using cA_ne cA_new by (intro exI [of _ cA]) (simp add: cache_of_def lA lB A'_fields B'_fields)
  have own: "cache_of dC (Id' C) = Some (new_id psC)"
    by (simp add: cache_of_def lC C'_fields)
  have online: "status_of dA (Id' A) = Some STORAGE_ONLINE"
    "status_of dB (Id' B) = Some STORAGE_ONLINE" "status_of dC (Id' C) = Some STORAGE_ONLINE"
    by (simp_all add: status_of_def lA lB lC A'_def B'_def C'_def)
  have general: "\<forall>ps d s. fetch_ok ps \<and> insert_ok ps \<and> update_ok ps
        \<and> Id' s \<in> Id' ` set (storages d)
        \<longrightarrow> status_of (PostCreate ps cachedir d s) (Id' s) = Some STORAGE_ONLINE"
    using PostCreate_online by blast
  from share own cachesC online general show ?thesis by blast
qed

lemma db_a_value:
  "db_a = \<lparr>storages = [st_a\<lparr>StoragecacheId := ''cache-a'', Status := ''online''\<rparr>],
           storagecaches = [\<lparr>CacheId = ''cache-a'', CacheName = ''iscsi-cache-a'',
                             CachePath = ''/cache'', CacheExternalId = ''a''\<rparr>]\<rparr>"
  by (simp add: db_a_def PostCreate_def FetchModelObjects_def create_storage_def db_empty_def
      ps_new_def st_a_def example_storage_def STORAGE_ISCSI_def STORAGE_ONLINE_def
      db_Insert_def db_Update_def Let_def)

lemma db_b_value:
  "db_b = \<lparr>storages = [st_a\<lparr>StoragecacheId := ''cache-a'', Status := ''online''\<rparr>,
                        st_b\<lparr>StoragecacheId := ''cache-a'', Status := ''online''\<rparr>],
           storagecaches = [\<lparr>CacheId = ''cache-a'', CacheName = ''iscsi-cache-a'',
                             CachePath = ''/cache'', CacheExternalId = ''a''\<rparr>]\<rparr>"
  unfolding db_b_def db_a_value
  by (simp add: PostCreate_def FetchModelObjects_def create_storage_def
      ps_new_def st_a_def st_b_def example_storage_def stored_conf_def STORAGE_ISCSI_def
      STORAGE_ONLINE_def db_Insert_def db_Update_def Let_def)

theorem PostCreate_cache_sharing_witness:
  "cache_of db_b ''a'' = Some ''cache-a'' \<and> cache_of db_b ''b'' = Some ''cache-a''
   \<and> cache_of db_c ''a'' = Some ''cache-a'' \<and> cache_of db_c ''b'' = Some ''cache-a''
   \<and> cache_of db_c ''c'' = Some ''cache-c''
   \<and> status_of db_a ''a'' = Some ''online'' \<and> status_of db_b ''b'' = Some ''online''
   \<and> status_of db_c ''c'' = Some ''online''"
proof -
  have ok: "fetch_ok (ps_new i) \<and> insert_ok (ps_new i) \<and> update_ok (ps_new i)" for i
    by (simp add: ps_new_def)
  have ids: "Id' st_a \<notin> Id' ` set (storages db_empty) \<and> Id' st_b \<notin> Id' ` set (storages db_empty)
        \<and> Id' st_c \<notin> Id' ` set (storages db_empty)
        \<and> Id' st_a \<noteq> Id' st_b \<and> Id' st_a \<noteq> Id' st_c \<and> Id' st_b \<noteq> Id' st_c"
    by (simp add: db_empty_def st_a_def st_b_def st_c_def example_storage_def)
  have iscsi: "StorageType st_a = STORAGE_ISCSI \<and> StorageType st_b = STORAGE_ISCSI
        \<and> StorageType st_c = STORAGE_ISCSI"
    by (simp add: st_a_def st_b_def st_c_def example_storage_def STORAGE_ISCSI_def)
  have nocache: "StoragecacheId st_a = [] \<and> StoragecacheId st_b = [] \<and> StoragecacheId st_c = []"
    by (simp add: st_a_def st_b_def st_c_def example_storage_def)
  have same: "target (Conf st_a) = target (Conf st_b) \<and> iqn (Conf st_a) = iqn (Conf st_b)
        \<and> portal (Conf st_a) = portal (Conf st_b)"
    by (simp add: st_a_def st_b_def example_storage_def stored_conf_def)
  have other: "portal (Conf st_c) \<noteq> portal (Conf st_a)"
    by (simp add: st_a_def st_c_def example_storage_def)
  have alone: "\<forall>r \<in> set (storages db_empty).
        StorageType r = STORAGE_ISCSI \<and> StoragecacheId r \<noteq> []
        \<longrightarrow> target (Conf r) \<noteq> target (Conf st_c) \<or> iqn (Conf r) \<noteq> iqn (Conf st_c)
             \<or> portal (Conf r) \<noteq> portal (Conf st_c)"
    by (simp add: db_empty_def)
  have newA: "new_id (ps_new ''cache-a'') \<noteq> []"
    by (simp add: ps_new_def)
  have newC: "new_id (ps_new ''cache-c'') \<noteq> []
        \<and> new_id (ps_new ''cache-c'') \<notin> StoragecacheId ` set (storages db_b)
        \<and> new_id (ps_new ''cache-c'') \<notin> CacheId ` set (storagecaches db_b)"
    by (simp add: db_b_value ps_new_def)
  have names: "Id' st_a = ''a''" "Id' st_b = ''b''" "Id' st_c = ''c''"
    "new_id (ps_new ''cache-c'') = ''cache-c''" "STORAGE_ONLINE = ''online''"
    by (simp_all add: st_a_def st_b_def st_c_def example_storage_def ps_new_def
        STORAGE_ONLINE_def)
  have a: "cache_of db_b ''a'' = Some ''cache-a''"
    by (simp add: cache_of_def lookup_storage_def db_b_value st_a_def example_storage_def)
  from PostCreate_cache_sharing [of "ps_new ''cache-a''" "ps_new ''cache-b''"
      "ps_new ''cache-c''" st_a db_empty st_b st_c "''/cache''",
      folded db_a_def, folded db_b_def, folded db_c_def,
      OF ok ok ok ids iscsi nocache same other alone newA newC]
  show ?thesis
    using a by (auto simp: names)
qed


section \<open>The device path resolver\<close>

lemma lang_star_anychar: "w \<in> lang (Star anychar)"
  unfolding anychar_def lang_star_atom by (simp add: list_all_iff)

lemma lang_star_dot: "w \<in> lang (Star dot) \<longleftrightarrow> CHR 0x0A \<notin> set w"
  unfolding dot_def lang_star_atom by (auto simp: list_all_iff)

lemma lang_unanchored:
  "w \<in> lang (unanchored r) \<longleftrightarrow> (\<exists>pre m post. w = pre @ m @ post \<and> m \<in> lang r)"
  unfolding unanchored_def lang_Seq by (simp only: lang_star_anychar simp_thms) blast

lemma lang_Seq_lits: "w \<in> lang (Seq (lits s) r) \<longleftrightarrow> (\<exists>v. w = s @ v \<and> v \<in> lang r)"
  unfolding lang_Seq lang_lits by blast

lemma lang_devicePattern:
  "m \<in> lang (devicePattern c) \<longleftrightarrow>
     (\<exists>mid. m = ''ip-'' @ targetIP c @ mid @ ''-iscsi-'' @ Iqn c @ ''-lun-'' @ Sprintf_d (LunId c)
        \<and> CHR 0x0A \<notin> set mid)"
proof
  assume "m \<in> lang (devicePattern c)"
  then obtain v1 where 1: "m = ''ip-'' @ v1"
    and "v1 \<in> lang (Seq (lits (targetIP c)) (Seq (Star dot) (Seq (lits ''-iscsi-'')
          (Seq (lits (Iqn c)) (Seq (lits ''-lun-'') (lits (Sprintf_d (LunId c))))))))"
    unfolding devicePattern_def lang_Seq_lits by blast
  then obtain v2 where 2: "v1 = targetIP c @ v2"
    and "v2 \<in> lang (Seq (Star dot) (Seq (lits ''-iscsi-'')
          (Seq (lits (Iqn c)) (Seq (lits ''-lun-'') (lits (Sprintf_d (LunId c)))))))"
    unfolding lang_Seq_lits by blast
  then obtain mid v3 where 3: "v2 = mid @ v3" "CHR 0x0A \<notin> set mid"
    and "v3 \<in> lang (Seq (lits ''-iscsi-'')
          (Seq (lits (Iqn c)) (Seq (lits ''-lun-'') (lits (Sprintf_d (LunId c))))))"
    unfolding lang_Seq [of v2] lang_star_dot by blast
  then obtain v4 where 4: "v3 = ''-iscsi-'' @ v4"
    and "v4 \<in> lang (Seq (lits (Iqn c)) (Seq (lits ''-lun-'') (lits (Sprintf_d (LunId c)))))"
    unfolding lang_Seq_lits by blast
  then obtain v5 where 5: "v4 = Iqn c @ v5"
    and "v5 \<in> lang (Seq (lits ''-lun-'') (lits (Sprintf_d (LunId c))))"
    unfolding lang_Seq_lits by blast
  then have 6: "v5 = ''-lun-'' @ Sprintf_d (LunId c)"
    unfolding lang_Seq_lits lang_lits by blast
  have "m = ''ip-'' @ targetIP c @ mid @ ''-iscsi-'' @ Iqn c @ ''-lun-'' @ Sprintf_d (LunId c)"
    by (simp only: 1 2 3 4 5 6)
  with 3(2) show "\<exists>mid. m = ''ip-'' @ targetIP c @ mid @ ''-iscsi-'' @ Iqn c @ ''-lun-''
        @ Sprintf_d (LunId c) \<and> CHR 0x0A \<notin> set mid"
    by blast
next
  assume "\<exists>mid. m = ''ip-'' @ targetIP c @ mid @ ''-iscsi-'' @ Iqn c @ ''-lun-''
        @ Sprintf_d (LunId c) \<and> CHR 0x0A \<notin> set mid"
  then obtain mid where m: "m = ''ip-'' @ (targetIP c @ (mid @ (''-iscsi-'' @ (Iqn c @ (''-lun-''
        @ Sprintf_d (LunId c))))))" and mid: "CHR 0x0A \<notin> set mid"
    by auto
  have "''ip-'' @ (targetIP c @ (mid @ (''-iscsi-'' @ (Iqn c @ (''-lun-''
        @ Sprintf_d (LunId c)))))) \<in> lang (devicePattern c)"
    unfolding devicePattern_def
    by (intro lang_SeqI) (simp_all only: lang_lits lang_star_dot mid not_False_eq_True)
  with m show "m \<in> lang (devicePattern c)" by simp
qed

lemma entry_matches_iff:
  "entry_matches c name \<longleftrightarrow>
     (\<exists>pre mid post.
        name = pre @ (''ip-'' @ targetIP c @ mid @ ''-iscsi-'' @ Iqn c @ ''-lun-''
                 @ Sprintf_d (LunId c)) @ post
        \<and> CHR 0x0A \<notin> set mid)"
  unfolding entry_matches_def rmatch_lang lang_unanchored lang_devicePattern by blast

lemma entry_matchesI:
  assumes "name = pre @ (''ip-'' @ targetIP c @ mid @ ''-iscsi-'' @ Iqn c @ ''-lun-''
                 @ Sprintf_d (LunId c)) @ post"
    and "CHR 0x0A \<notin> set mid"
  shows "entry_matches c name"
  unfolding entry_matches_iff using assms by blast


lemma conf_lun_parts:
  "targetIP (conf_lun l) = ''10.0.0.1''" "Iqn (conf_lun l) = ''iqn.2023-01.com.example:t1''"
  "LunId (conf_lun l) = l"
  by (simp_all add: targetIP_def conf_lun_def)

lemma Sprintf_d_1: "Sprintf_d 1 = ''1''"
  by (simp add: Sprintf_d_def)


lemma entry_port_matches: "CHR 0x0A \<notin> set p \<Longrightarrow> entry_matches (conf_lun 1) (entry_port p)"
  by (rule entry_matchesI [where pre = "[]" and mid = "CHR '':'' # p" and post = "[]"])
    (simp_all add: conf_lun_parts Sprintf_d_1 entry_port_def)




section \<open>The states of an instance\<close>

lemma SetStorageInfo_runtime:
  "devicePath (fst (SetStorageInfo lib i n cnf s)) = devicePath s"
  "isConnected (fst (SetStorageInfo lib i n cnf s)) = isConnected s"
  by (simp_all add: SetStorageInfo_def Let_def split: option.splits prod.splits)

lemma waitForDevice_Inr: "waitForDevice polls s = Inr p \<Longrightarrow> p \<noteq> []"
  by (induction polls) (auto split: sum.splits if_splits)

lemma waitForDevice_Inl: "waitForDevice polls s = Inl e \<Longrightarrow> e = DeviceTimeout"
  by (induction polls) (auto split: sum.splits if_splits)

lemma MountStorage_runtime:
  assumes "isConnected s \<longleftrightarrow> devicePath s \<noteq> []"
  shows "isConnected (fst (MountStorage env polls s))
     \<longleftrightarrow> devicePath (fst (MountStorage env polls s)) \<noteq> []"
  using assms
  by (auto simp: MountStorage_def dest: waitForDevice_Inr
      split: prod.splits option.splits sum.splits)

lemma UnmountStorage_runtime:
  assumes "isConnected s \<longleftrightarrow> devicePath s \<noteq> []"
  shows "isConnected (fst (UnmountStorage env s))
     \<longleftrightarrow> devicePath (fst (UnmountStorage env s)) \<noteq> []"
  using assms by (auto simp: UnmountStorage_def)

lemma reachable_runtime: "reachable s \<Longrightarrow> isConnected s \<longleftrightarrow> devicePath s \<noteq> []"
proof (induction rule: reachable.induct)
  case (reachable_new base_id base_name base_conf)
  show ?case by (simp add: NewIscsiStorage_def)
next
  case (reachable_set s lib i n cnf)
  then show ?case by (simp add: SetStorageInfo_runtime)
next
  case (reachable_mount s env polls)
  from reachable_mount.IH show ?case by (rule MountStorage_runtime)
next
  case (reachable_unmount s env)
  from reachable_unmount.IH show ?case by (rule UnmountStorage_runtime)
qed


section \<open>Claims about the host-side storage\<close>

lemma host_storage_value:
  "host_storage l =
     \<lparr>StorageId = ''id-1'', StorageName = ''iscsi-1'', BaseStorageConf = Some (),
      conf = conf_lun l, devicePath = [], isConnected = False\<rparr>"
  by (simp add: host_storage_def SetStorageInfo_def NewIscsiStorage_def json_lun_def)

lemma host_storage_reachable: "reachable (host_storage l)"
  unfolding host_storage_def by (intro reachable_set reachable_new)

lemma findDevicePath_dangling: "findDevicePath fs_dangling (host_storage 1) = Inr ''/dev/sdc''"
proof -
  have m: "entry_matches (conf_lun 1) (entry_port ''3260'')"
    "entry_matches (conf_lun 1) (entry_port ''3261'')"
    by (simp_all add: entry_port_matches)
  have "entry_port ''3260'' \<noteq> entry_port ''3261''"
    by (simp add: entry_port_def)
  with m show ?thesis
    by (simp add: findDevicePath_def fs_dangling_def host_storage_value byPathDir_def)
qed





text \<open>
  C6. On a new instance the connected flag is false and the device path is empty, so
  \<^emph>\<open>connected implies a non-empty device path\<close> holds. \<^verbatim>\<open>MountStorage\<close> and
  \<^verbatim>\<open>UnmountStorage\<close> keep it, whatever they return; and it holds in every state an
  instance can reach.
\<close>

theorem connected_implies_device_path:
  "\<not> isConnected (NewIscsiStorage base_id base_name base_conf)
   \<and> devicePath (NewIscsiStorage base_id base_name base_conf) = []
   \<and> ((isConnected s \<longrightarrow> devicePath s \<noteq> []) \<longrightarrow>
        (isConnected (fst (MountStorage env polls s))
           \<longrightarrow> devicePath (fst (MountStorage env polls s)) \<noteq> []))
   \<and> ((isConnected s \<longrightarrow> devicePath s \<noteq> []) \<longrightarrow>
        (isConnected (fst (UnmountStorage env s))
           \<longrightarrow> devicePath (fst (UnmountStorage env s)) \<noteq> []))
   \<and> (reachable s \<longrightarrow> (isConnected s \<longrightarrow> devicePath s \<noteq> []))"
proof (intro conjI impI)
  show "\<not> isConnected (NewIscsiStorage base_id base_name base_conf)"
    and "devicePath (NewIscsiStorage base_id base_name base_conf) = []"
    by (simp_all add: NewIscsiStorage_def)
next
  assume inv: "isConnected s \<longrightarrow> devicePath s \<noteq> []"
    and c: "isConnected (fst (MountStorage env polls s))"
  show "devicePath (fst (MountStorage env polls s)) \<noteq> []"
  proof (cases "isConnected s")
    case True
    with inv show ?thesis by (simp add: MountStorage_def)
  next
    case False
    with c obtain p where "waitForDevice polls s = Inr p"
      and "fst (MountStorage env polls s) = s\<lparr>devicePath := p, isConnected := True\<rparr>"
      by (auto simp: MountStorage_def split: prod.splits option.splits sum.splits)
    with waitForDevice_Inr [of polls s p] show ?thesis by simp
  qed
next
  assume "isConnected (fst (UnmountStorage env s))"
  then show "devicePath (fst (UnmountStorage env s)) \<noteq> []"
    by (simp add: UnmountStorage_def split: if_splits)
next
  assume "reachable s" and "isConnected s"
  then show "devicePath s \<noteq> []"
    using reachable_runtime [of s] by simp
qed

lemma Contains_example:
  "Contains ''10.0.0.1:3260,1 iqn.2023-01.com.example:t1'' ''iqn.2023-01.com.example:t1''"
  by simp

lemma discoverTarget_example:
  "discoverTarget env_ok (host_storage 1) = (None, [discovery_args (host_storage 1)])"
  using Contains_example
  by (simp add: discoverTarget_def env_ok_def host_storage_value conf_lun_def)

lemma loginTarget_example:
  "loginTarget env_ok (host_storage 1) = (None, [login_args (host_storage 1)])"
  by (simp add: loginTarget_def env_ok_def host_storage_value conf_lun_def)

lemma waitForDevice_example:
  "waitForDevice [fs_none, fs_dangling] (host_storage 1) = Inr ''/dev/sdc''"
proof -
  have "findDevicePath fs_none (host_storage 1)
      = Inl (DeviceNotFound (Iqn (conf (host_storage 1))) (LunId (conf (host_storage 1))))"
    by (simp add: findDevicePath_def fs_none_def)
  then show ?thesis by (simp add: findDevicePath_dangling)
qed

lemma MountStorage_example:
  "MountStorage env_ok [fs_none, fs_dangling] (host_storage 1) =
     ((host_storage 1)\<lparr>devicePath := ''/dev/sdc'', isConnected := True\<rparr>, None,
      [discovery_args (host_storage 1), login_args (host_storage 1)])"
proof -
  have "\<not> isConnected (host_storage 1)" by (simp add: host_storage_value)
  then show ?thesis
    by (simp add: MountStorage_def discoverTarget_example loginTarget_example
        waitForDevice_example del: waitForDevice.simps)
qed

theorem connected_implies_device_path_witness:
  "\<not> isConnected (host_storage 1)
   \<and> isConnected (fst (MountStorage env_ok [fs_none, fs_dangling] (host_storage 1)))
   \<and> devicePath (fst (MountStorage env_ok [fs_none, fs_dangling] (host_storage 1))) \<noteq> []
   \<and> reachable (fst (MountStorage env_ok [fs_none, fs_dangling] (host_storage 1)))"
proof -
  have inv: "isConnected (host_storage 1) \<longrightarrow> devicePath (host_storage 1) \<noteq> []"
    by (simp add: host_storage_value)
  have c: "isConnected (fst (MountStorage env_ok [fs_none, fs_dangling] (host_storage 1)))"
    by (simp add: MountStorage_example)
  have r: "reachable (fst (MountStorage env_ok [fs_none, fs_dangling] (host_storage 1)))"
    by (intro reachable_mount host_storage_reachable)
  from connected_implies_device_path [of "[]" "[]" None "host_storage 1" env_ok
      "[fs_none, fs_dangling]"] inv c r
  have "devicePath (fst (MountStorage env_ok [fs_none, fs_dangling] (host_storage 1))) \<noteq> []"
    by blast
  moreover have "\<not> isConnected (host_storage 1)"
    by (simp add: host_storage_value)
  ultimately show ?thesis using c r by blast
qed


text \<open>
  C7. An instance that is not connected passes discovery and login, and then the wait for
  the device fails: the polls before the deadline run out and none resolved a device.
  Then \<^verbatim>\<open>MountStorage\<close> leaves the instance as it was, not connected and without a device
  path; the last command it ran is the logout
  \<^verbatim>\<open>iscsiadm -m node -T <iqn> -p <portal> --logout\<close>; and it returns the timeout of the
  wait, wrapped.
\<close>

theorem MountStorage_wait_failure_rolls_back:
  assumes "reachable s" and "\<not> isConnected s"
    and "fst (discoverTarget env s) = None" and "fst (loginTarget env s) = None"
    and "waitForDevice polls s = Inl e"
  shows "MountStorage env polls s =
      (s, Some (Wrapf ''wait for iSCSI device'' DeviceTimeout),
       snd (discoverTarget env s) @ snd (loginTarget env s)
         @ [[''-m'', ''node'', ''-T'', Iqn (conf s), ''-p'', Portal (conf s), ''--logout'']])
    \<and> e = DeviceTimeout \<and> \<not> isConnected s \<and> devicePath s = []"
proof -
  from assms(5) have e: "e = DeviceTimeout" by (rule waitForDevice_Inl)
  from assms(1,2) have path: "devicePath s = []"
    using reachable_runtime [of s] by simp
  obtain t1 where d: "discoverTarget env s = (None, t1)"
    using assms(3) by (cases "discoverTarget env s") simp
  obtain t2 where l: "loginTarget env s = (None, t2)"
    using assms(4) by (cases "loginTarget env s") simp
  have out: "snd (logoutTarget env s)
      = [[''-m'', ''node'', ''-T'', Iqn (conf s), ''-p'', Portal (conf s), ''--logout'']]"
    by (simp add: logoutTarget_def logout_args_def node_args_def split: prod.splits)
  from assms(2,5) e d l out path show ?thesis
    by (simp add: MountStorage_def)
qed

theorem MountStorage_wait_failure_rolls_back_witness:
  "MountStorage env_ok [fs_none, fs_none] (host_storage 1) =
      (host_storage 1, Some (Wrapf ''wait for iSCSI device'' DeviceTimeout),
       [[''-m'', ''discovery'', ''-t'', ''sendtargets'', ''-p'', ''10.0.0.1:3260''],
        [''-m'', ''node'', ''-T'', ''iqn.2023-01.com.example:t1'', ''-p'', ''10.0.0.1:3260'',
         ''--login''],
        [''-m'', ''node'', ''-T'', ''iqn.2023-01.com.example:t1'', ''-p'', ''10.0.0.1:3260'',
         ''--logout'']])
   \<and> \<not> isConnected (host_storage 1) \<and> devicePath (host_storage 1) = []"
proof -
  have nc: "\<not> isConnected (host_storage 1)" by (simp add: host_storage_value)
  have d: "fst (discoverTarget env_ok (host_storage 1)) = None"
    by (simp add: discoverTarget_example)
  have l: "fst (loginTarget env_ok (host_storage 1)) = None"
    by (simp add: loginTarget_example)
  have "findDevicePath fs_none (host_storage 1)
      = Inl (DeviceNotFound (Iqn (conf (host_storage 1))) (LunId (conf (host_storage 1))))"
    by (simp add: findDevicePath_def fs_none_def)
  then have w: "waitForDevice [fs_none, fs_none] (host_storage 1) = Inl DeviceTimeout"
    by simp
  from MountStorage_wait_failure_rolls_back [OF host_storage_reachable nc d l w]
  show ?thesis
    by (simp add: discoverTarget_example loginTarget_example discovery_args_def login_args_def
        node_args_def)
      (simp add: host_storage_value conf_lun_def)
qed


text \<open>
  C8. \<^verbatim>\<open>MountStorage\<close> on a connected instance returns success, runs no command and
  changes nothing; so does a second call after a call that succeeded, whatever the host
  would answer. \<^verbatim>\<open>UnmountStorage\<close> on an instance that is not connected returns success,
  runs no command and changes nothing; so does a second call after any call.
\<close>

theorem MountStorage_UnmountStorage_idempotent:
  "(isConnected s \<longrightarrow> MountStorage env polls s = (s, None, []))
   \<and> (fst (snd (MountStorage env polls s)) = None \<longrightarrow>
        MountStorage env' polls' (fst (MountStorage env polls s))
          = (fst (MountStorage env polls s), None, []))
   \<and> (\<not> isConnected s \<longrightarrow> UnmountStorage env s = (s, None, []))
   \<and> UnmountStorage env' (fst (UnmountStorage env s)) = (fst (UnmountStorage env s), None, [])"
proof (intro conjI impI)
  show "MountStorage env polls s = (s, None, [])" if "isConnected s"
    using that by (simp add: MountStorage_def)
  show "MountStorage env' polls' (fst (MountStorage env polls s))
          = (fst (MountStorage env polls s), None, [])"
    if "fst (snd (MountStorage env polls s)) = None"
  proof -
    from that have "isConnected (fst (MountStorage env polls s))"
      by (auto simp: MountStorage_def split: if_splits prod.splits option.splits sum.splits)
    then show ?thesis by (simp add: MountStorage_def)
  qed
  show "UnmountStorage env s = (s, None, [])" if "\<not> isConnected s"
    using that by (simp add: UnmountStorage_def)
  have "\<not> isConnected (fst (UnmountStorage env s))"
    by (simp add: UnmountStorage_def)
  then show "UnmountStorage env' (fst (UnmountStorage env s))
      = (fst (UnmountStorage env s), None, [])"
    by (simp add: UnmountStorage_def)
qed

theorem MountStorage_UnmountStorage_idempotent_witness:
  "MountStorage env_ok [fs_none]
       (fst (MountStorage env_ok [fs_none, fs_dangling] (host_storage 1)))
     = ((host_storage 1)\<lparr>devicePath := ''/dev/sdc'', isConnected := True\<rparr>, None, [])
   \<and> UnmountStorage env_ok (host_storage 1) = (host_storage 1, None, [])"
proof -
  have ok: "fst (snd (MountStorage env_ok [fs_none, fs_dangling] (host_storage 1))) = None"
    by (simp add: MountStorage_example)
  have nc: "\<not> isConnected (host_storage 1)"
    by (simp add: host_storage_value)
  from MountStorage_UnmountStorage_idempotent [of "host_storage 1" env_ok
      "[fs_none, fs_dangling]" env_ok "[fs_none]"] ok nc
  show ?thesis by (simp add: MountStorage_example)
qed


lemma SetStorageInfo_Some:
  "SetStorageInfo lib i n (Some c) s =
     (s\<lparr>StorageId := i, StorageName := n,
        BaseStorageConf := (if isJSONDict lib c then Some c else BaseStorageConf s),
        conf := fst (Unmarshal lib c (conf s))\<rparr>,
      if snd (Unmarshal lib c (conf s)) then None
      else Some (Wrapf ''unmarshal iSCSI storage config'' UnmarshalError))"
  by (cases "isJSONDict lib c"; cases "Unmarshal lib c (conf s)")
    (simp_all add: SetStorageInfo_def Let_def)

text \<open>
  C10. \<^verbatim>\<open>SetStorageInfo\<close> returns an error only when a configuration object is given and
  its \<^verbatim>\<open>Unmarshal\<close> fails. The identifier and the name of the instance are then the
  arguments of the call and, when the object is a dictionary, the raw configuration is
  that object: nothing is put back to what it was. The runtime state is not touched.
\<close>

theorem SetStorageInfo_error_leaves_new_identity:
  assumes "SetStorageInfo lib storageId storageName cnf s = (s', Some e)"
  shows "StorageId s' = storageId \<and> StorageName s' = storageName
    \<and> (\<exists>c. cnf = Some c \<and> \<not> snd (Unmarshal lib c (conf s))
          \<and> conf s' = fst (Unmarshal lib c (conf s))
          \<and> BaseStorageConf s' = (if isJSONDict lib c then Some c else BaseStorageConf s))
    \<and> devicePath s' = devicePath s \<and> isConnected s' = isConnected s"
proof (cases cnf)
  case None
  with assms show ?thesis
    by (simp add: SetStorageInfo_def)
next
  case (Some c)
  from assms show ?thesis
    unfolding Some SetStorageInfo_Some
    by (auto simp: Let_def split: if_splits)
qed

theorem SetStorageInfo_error_leaves_new_identity_witness:
  "snd (SetStorageInfo json_bad ''id-2'' ''iscsi-2'' (Some ()) (host_storage 1)) \<noteq> None
   \<and> StorageId (fst (SetStorageInfo json_bad ''id-2'' ''iscsi-2'' (Some ()) (host_storage 1)))
       = ''id-2''
   \<and> StorageName (fst (SetStorageInfo json_bad ''id-2'' ''iscsi-2'' (Some ()) (host_storage 1)))
       = ''iscsi-2''
   \<and> StorageId (host_storage 1) = ''id-1'' \<and> StorageName (host_storage 1) = ''iscsi-1''"
proof -
  have r: "SetStorageInfo json_bad ''id-2'' ''iscsi-2'' (Some ()) (host_storage 1) =
      (fst (SetStorageInfo json_bad ''id-2'' ''iscsi-2'' (Some ()) (host_storage 1)),
       Some (Wrapf ''unmarshal iSCSI storage config'' UnmarshalError))"
    by (simp add: SetStorageInfo_def json_bad_def)
  have e: "snd (SetStorageInfo json_bad ''id-2'' ''iscsi-2'' (Some ()) (host_storage 1)) \<noteq> None"
    by (simp add: SetStorageInfo_def json_bad_def)
  have old: "StorageId (host_storage 1) = ''id-1''" "StorageName (host_storage 1) = ''iscsi-1''"
    by (simp_all add: host_storage_value)
  note new = SetStorageInfo_error_leaves_new_identity [OF r]
  from new [THEN conjunct1] new [THEN conjunct2, THEN conjunct1] e old
  show ?thesis by simp
qed


end
